theory Spec2Isabelle
  imports Complex_Main
begin

section \<open>The pipeline driver \<open>go\<close> of \<open>main.py\<close>\<close>

text \<open>
  \<open>main.py\<close> holds one function, \<open>go(config)\<close>: it sets two environment variables,
  normalises \<open>config["main"]["execute_steps"]\<close>, opens a temporary directory and then
  runs six \<open>if "<name>" in steps_to_execute: try: mlflow.run(...) except Exception as e:
  logger.error(...); raise\<close> blocks one after the other.

  Everything the function touches is made explicit here: the process environment, the
  files and directories it writes, the records of \<open>logger.error\<close> and the calls of
  \<open>mlflow.run\<close> are components of the state; an exception is the value \<open>Some e\<close> in the
  first component of the result, next to the state reached when it was raised. Strings are
  lists of bytes.
\<close>

subsection \<open>Strings: \<open>str.split\<close>, \<open>str.join\<close>, \<open>posixpath\<close>\<close>

text \<open>\<open>s.split(c)\<close> for a one-character separator: no fragment is trimmed or dropped.\<close>

fun split_str :: "char \<Rightarrow> string \<Rightarrow> string list" where
  "split_str c [] = [[]]"
| "split_str c (x # xs) =
     (if x = c then [] # split_str c xs
      else (case split_str c xs of [] \<Rightarrow> [[x]] | w # ws \<Rightarrow> (x # w) # ws))"

text \<open>\<open>sep.join(xs)\<close>.\<close>

fun str_join :: "string \<Rightarrow> string list \<Rightarrow> string" where
  "str_join sep [] = []"
| "str_join sep [x] = x"
| "str_join sep (x # y # ys) = x @ sep @ str_join sep (y # ys)"

text \<open>\<open>s.startswith(p)\<close> and \<open>p in s\<close> (substring test).\<close>

definition startswith :: "string \<Rightarrow> string \<Rightarrow> bool" where
  "startswith s p = (take (length p) s = p)"

fun contains :: "string \<Rightarrow> string \<Rightarrow> bool" where
  "contains [] p = (p = [])"
| "contains (x # xs) p = (startswith (x # xs) p \<or> contains xs p)"

text \<open>
  \<open>posixpath.join(a, *p)\<close>: a component that starts with \<open>/\<close> replaces the path built
  so far, otherwise it is appended after one separator.
\<close>

definition join_step :: "string \<Rightarrow> string \<Rightarrow> string" where
  "join_step path b =
     (if startswith b ''/'' then b
      else if path = [] \<or> last path = CHR ''/'' then path @ b
      else path @ ''/'' @ b)"

definition path_join :: "string \<Rightarrow> string list \<Rightarrow> string" where
  "path_join a p = foldl join_step a p"

text \<open>
  \<open>posixpath.normpath\<close>: empty and \<open>.\<close> components vanish, \<open>..\<close> removes the component
  before it, exactly two leading slashes are kept.
\<close>

fun norm_comps :: "nat \<Rightarrow> string list \<Rightarrow> string list \<Rightarrow> string list" where
  "norm_comps initial_slashes [] new_comps = new_comps"
| "norm_comps initial_slashes (part # comps) new_comps =
     (if part = [] \<or> part = ''.'' then norm_comps initial_slashes comps new_comps
      else if part \<noteq> ''..'' \<or> (initial_slashes = 0 \<and> new_comps = [])
                \<or> (new_comps \<noteq> [] \<and> last new_comps = ''..'')
        then norm_comps initial_slashes comps (new_comps @ [part])
      else if new_comps \<noteq> [] then norm_comps initial_slashes comps (butlast new_comps)
      else norm_comps initial_slashes comps new_comps)"

definition normpath :: "string \<Rightarrow> string" where
  "normpath path =
     (if path = [] then ''.''
      else
        let initial_slashes =
              (if startswith path ''/'' then
                 (if startswith path ''//'' \<and> \<not> startswith path ''///'' then 2 else 1)
               else (0::nat));
            comps = norm_comps initial_slashes (split_str CHR ''/'' path) [];
            p = replicate initial_slashes CHR ''/'' @ str_join ''/'' comps
        in if p = [] then ''.'' else p)"

text \<open>\<open>os.path.abspath(path)\<close> in a process whose working directory is \<open>wd\<close>.\<close>

definition abspath :: "string \<Rightarrow> string \<Rightarrow> string" where
  "abspath wd path =
     normpath (if startswith path ''/'' then path else path_join wd [path])"

subsection \<open>The configuration\<close>

text \<open>
  The configuration is a nested mapping whose leaves are scalars. The sections and fields
  that \<open>go\<close> reads are record fields, so a configuration without one of them is not a
  value of the type; the names and paths that \<open>go\<close> hands to \<open>os.environ\<close>,
  \<open>os.path.join\<close> and \<open>+\<close> are strings. A float is only ever passed on, never computed
  with: a finite one is the number its literal denotes, and \<open>.nan\<close>, \<open>.inf\<close> and \<open>-.inf\<close>
  are values of their own. \<open>execute_steps\<close> is a string or a list of strings, as
  \<open>isinstance(..., str)\<close> distinguishes them.
\<close>

datatype scalar =
  SStr string | SInt int | SFloat real | SNaN | SInf | SNegInf | SBool bool | SNone

datatype cval = CScalar scalar | CDict "(string \<times> cval) list" | CList "cval list"

datatype steps_value = StepsStr string | StepsList "string list"

record main_cfg =
  project_name :: string
  experiment_name :: string
  execute_steps :: steps_value
  random_state :: scalar

record data_cfg =
  sample :: string
  test_size :: scalar
  val_size :: scalar
  stratify :: scalar

record etl_cfg =
  min_price :: scalar
  max_price :: scalar

record data_check_cfg =
  kl_threshold :: scalar

record pipeline_cfg =
  export_artifact :: string
  pipeline_rest :: "(string \<times> cval) list"

record config =
  main :: main_cfg
  data :: data_cfg
  etl :: etl_cfg
  data_check :: data_check_cfg
  pipeline :: pipeline_cfg

subsection \<open>The state and the collaborators\<close>

text \<open>
  An exception, with the name of its class and \<open>str(e)\<close>: one of a class derived from
  \<open>Exception\<close>, which \<open>except Exception\<close> catches, or one derived from \<open>BaseException\<close>
  only (\<open>KeyboardInterrupt\<close>, \<open>SystemExit\<close>), which it does not.
\<close>

datatype exn =
  PyExc (exc_type: string) (exc_str: string)
| PyBaseExc (exc_type: string) (exc_str: string)

fun is_Exception :: "exn \<Rightarrow> bool" where
  "is_Exception (PyExc t m) = True"
| "is_Exception (PyBaseExc t m) = False"

text \<open>
  \<open>environ\<close> is \<open>os.environ\<close>, \<open>files\<close> maps a path to the text of the file there,
  \<open>dirs\<close> is the set of directories, \<open>cwd\<close> is \<open>os.getcwd()\<close> and \<open>logger\<close> holds the
  messages passed to \<open>logger.error\<close>, oldest first.
\<close>

record world =
  environ :: "string \<rightharpoonup> string"
  files :: "string \<rightharpoonup> string"
  dirs :: "string set"
  cwd :: string
  logger :: "string list"

text \<open>One call \<open>mlflow.run(uri, entry_point, parameters=...)\<close>.\<close>

record invocation =
  uri :: string
  entry_point :: string
  parameters :: "(string \<times> scalar) list"

text \<open>
  What \<open>go\<close> calls and does not define. \<open>mlflow_run\<close> gives the exception that
  \<open>mlflow.run\<close> raises for a call made in a given world, or \<open>None\<close> when it returns;
  \<open>open_w\<close> does the same for \<open>open(path, "w+")\<close>; \<open>to_yaml\<close> is \<open>OmegaConf.to_yaml\<close>,
  which gives a text or raises; \<open>mkdtemp\<close> is the name of the directory that
  \<open>tempfile.TemporaryDirectory()\<close> creates; \<open>original_cwd\<close> is
  \<open>hydra.utils.get_original_cwd()\<close>.
\<close>

record externals =
  mlflow_run :: "world \<Rightarrow> invocation \<Rightarrow> exn option"
  open_w :: "world \<Rightarrow> string \<Rightarrow> exn option"
  to_yaml :: "pipeline_cfg \<Rightarrow> exn + string"
  mkdtemp :: "world \<Rightarrow> string"
  original_cwd :: string

text \<open>
  The state threaded through the six blocks: the world, and the calls of \<open>mlflow.run\<close>
  made so far, each with the world it was made in.
\<close>

type_synonym state = "world \<times> (world \<times> invocation) list"

subsection \<open>The six steps\<close>

datatype step = DataGet | DataClean | DataCheck | DataSplit | TrainRandomForest | TestModel

fun step_name :: "step \<Rightarrow> string" where
  "step_name DataGet = ''data_get''"
| "step_name DataClean = ''data_clean''"
| "step_name DataCheck = ''data_check''"
| "step_name DataSplit = ''data_split''"
| "step_name TrainRandomForest = ''train_random_forest''"
| "step_name TestModel = ''test_model''"

text \<open>The order of the six blocks in the body of \<open>go\<close>.\<close>

definition step_order :: "step list" where
  "step_order = [DataGet, DataClean, DataCheck, DataSplit, TrainRandomForest, TestModel]"

text \<open>
  The \<open>parameters=\<close> dictionary of each block, keys in the order written; \<open>rf_config\<close>
  is the local variable of that name in the training block.
\<close>

fun step_parameters :: "config \<Rightarrow> string \<Rightarrow> string \<Rightarrow> step \<Rightarrow> (string \<times> scalar) list" where
  "step_parameters config root_path rf_config DataGet =
     [(''input_file'', SStr (path_join root_path [sample (data config)])),
      (''artifact_name'', SStr ''raw_data.csv''),
      (''artifact_type'', SStr ''raw_data''),
      (''artifact_description'', SStr ''Input raw dataset from csv file'')]"
| "step_parameters config root_path rf_config DataClean =
     [(''input_artifact'', SStr ''nyc_airbnb/raw_data.csv:latest''),
      (''output_artifact_name'', SStr ''clean_data.csv''),
      (''output_artifact_type'', SStr ''clean_data''),
      (''output_artifact_description'', SStr ''Clean dataset with outliers removed''),
      (''min_price'', min_price (etl config)),
      (''max_price'', max_price (etl config))]"
| "step_parameters config root_path rf_config DataCheck =
     [(''csv'', SStr ''nyc_airbnb/clean_data.csv:latest''),
      (''ref'', SStr ''nyc_airbnb/clean_data.csv:reference''),
      (''kl_threshold'', kl_threshold (data_check config)),
      (''min_price'', min_price (etl config)),
      (''max_price'', max_price (etl config))]"
| "step_parameters config root_path rf_config DataSplit =
     [(''input_data'', SStr ''nyc_airbnb/clean_data.csv:latest''),
      (''test_size'', test_size (data config)),
      (''random_state'', random_state (main config)),
      (''stratify'', stratify (data config))]"
| "step_parameters config root_path rf_config TrainRandomForest =
     [(''trainval_artifact'', SStr ''nyc_airbnb/trainval_data.csv:latest''),
      (''val_size'', val_size (data config)),
      (''random_state'', random_state (main config)),
      (''stratify'', stratify (data config)),
      (''rf_config'', SStr rf_config),
      (''output_artifact'', SStr (export_artifact (pipeline config)))]"
| "step_parameters config root_path rf_config TestModel =
     [(''mlflow_model'', SStr (''nyc_airbnb/'' @ export_artifact (pipeline config) @ '':prod'')),
      (''test_dataset'', SStr ''nyc_airbnb/test_data.csv:latest'')]"

text \<open>The call a block makes: the component directory, \<open>"main"\<close>, the parameters.\<close>

definition step_invocation :: "config \<Rightarrow> string \<Rightarrow> string \<Rightarrow> step \<Rightarrow> invocation" where
  "step_invocation config root_path rf_config st =
     \<lparr>uri = path_join root_path [''components'', step_name st],
      entry_point = ''main'',
      parameters = step_parameters config root_path rf_config st\<rparr>"

text \<open>\<open>logger.error(f"MLflow run failed: {e}")\<close>.\<close>

definition log_error :: "exn \<Rightarrow> world \<Rightarrow> world" where
  "log_error e w = w\<lparr>logger := logger w @ [''MLflow run failed: '' @ exc_str e]\<rparr>"

text \<open>
  \<open>except Exception as e: logger.error(...); raise\<close>: an exception that is not an
  \<open>Exception\<close> passes without a record.
\<close>

definition except_Exception :: "exn \<Rightarrow> world \<Rightarrow> world" where
  "except_Exception e w = (if is_Exception e then log_error e w else w)"

text \<open>
  \<open>try: mlflow.run(...) except Exception as e: logger.error(...); raise\<close>. The call is
  recorded whether it returns or raises.
\<close>

definition delegate :: "externals \<Rightarrow> invocation \<Rightarrow> state \<Rightarrow> exn option \<times> state" where
  "delegate ext c s =
     (case s of (w, calls) \<Rightarrow>
        (case mlflow_run ext w c of
           None \<Rightarrow> (None, (w, calls @ [(w, c)]))
         | Some e \<Rightarrow> (Some e, (except_Exception e w, calls @ [(w, c)]))))"

text \<open>
  The body of one \<open>try\<close>. The training block first computes
  \<open>rf_config = os.path.abspath("rf_config.json")\<close>, opens that file for writing, which
  creates it or empties it, and writes \<open>OmegaConf.to_yaml(config["pipeline"])\<close> there; a
  failure of \<open>open\<close> or of \<open>to_yaml\<close> is caught by the same \<open>except\<close> as a failure of
  \<open>mlflow.run\<close>.
\<close>

definition rf_config_path :: "world \<Rightarrow> string" where
  "rf_config_path w = abspath (cwd w) ''rf_config.json''"

definition try_step :: "externals \<Rightarrow> config \<Rightarrow> string \<Rightarrow> step \<Rightarrow> state \<Rightarrow> exn option \<times> state" where
  "try_step ext config root_path st s =
     (case s of (w, calls) \<Rightarrow>
        (if st = TrainRandomForest then
           (let rf_config = rf_config_path w in
            case open_w ext w rf_config of
              Some e \<Rightarrow> (Some e, (except_Exception e w, calls))
            | None \<Rightarrow>
                (let w1 = w\<lparr>files := (files w)(rf_config \<mapsto> [])\<rparr> in
                 case to_yaml ext (pipeline config) of
                   Inl e \<Rightarrow> (Some e, (except_Exception e w1, calls))
                 | Inr text \<Rightarrow>
                     delegate ext (step_invocation config root_path rf_config st)
                       (w1\<lparr>files := (files w1)(rf_config \<mapsto> text)\<rparr>, calls)))
         else delegate ext (step_invocation config root_path [] st) (w, calls)))"

text \<open>\<open>if "<name>" in steps_to_execute: try: ...\<close>.\<close>

definition step_block ::
  "externals \<Rightarrow> config \<Rightarrow> string \<Rightarrow> string list \<Rightarrow> step \<Rightarrow> state \<Rightarrow> exn option \<times> state" where
  "step_block ext config root_path steps_to_execute st s =
     (if step_name st \<in> set steps_to_execute then try_step ext config root_path st s
      else (None, s))"

text \<open>Statement after statement: the second runs when the first raised nothing.\<close>

definition and_then ::
  "(state \<Rightarrow> exn option \<times> state) \<Rightarrow> (state \<Rightarrow> exn option \<times> state) \<Rightarrow> state \<Rightarrow> exn option \<times> state" where
  "and_then f g s = (case f s of (None, s') \<Rightarrow> g s' | (Some e, s') \<Rightarrow> (Some e, s'))"

text \<open>The body of the \<open>with\<close> statement: the six blocks as they are written.\<close>

definition with_body ::
  "externals \<Rightarrow> config \<Rightarrow> string \<Rightarrow> string list \<Rightarrow> state \<Rightarrow> exn option \<times> state" where
  "with_body ext config root_path steps_to_execute =
     and_then (step_block ext config root_path steps_to_execute DataGet)
    (and_then (step_block ext config root_path steps_to_execute DataClean)
    (and_then (step_block ext config root_path steps_to_execute DataCheck)
    (and_then (step_block ext config root_path steps_to_execute DataSplit)
    (and_then (step_block ext config root_path steps_to_execute TrainRandomForest)
              (step_block ext config root_path steps_to_execute TestModel)))))"

text \<open>The same blocks over a list of steps, for induction.\<close>

fun run_steps ::
  "externals \<Rightarrow> config \<Rightarrow> string \<Rightarrow> string list \<Rightarrow> step list \<Rightarrow> state \<Rightarrow> exn option \<times> state" where
  "run_steps ext config root_path sel [] s = (None, s)"
| "run_steps ext config root_path sel (st # sts) s =
     (case step_block ext config root_path sel st s of
        (None, s') \<Rightarrow> run_steps ext config root_path sel sts s'
      | (Some e, s') \<Rightarrow> (Some e, s'))"

subsection \<open>\<open>go\<close>\<close>

text \<open>Lines 22 to 25: a string is split at its commas, a list is taken as it is.\<close>

definition resolve_steps :: "config \<Rightarrow> string list" where
  "resolve_steps config =
     (case execute_steps (main config) of
        StepsStr s \<Rightarrow> split_str CHR '','' s
      | StepsList l \<Rightarrow> l)"

text \<open>
  Leaving the \<open>with\<close> statement removes the temporary directory and all below it,
  whether the body returned or raised.
\<close>

definition under :: "string \<Rightarrow> string \<Rightarrow> bool" where
  "under d p = (p = d \<or> startswith p (d @ ''/''))"

definition cleanup :: "string \<Rightarrow> world \<Rightarrow> world" where
  "cleanup d w =
     w\<lparr>dirs := {p \<in> dirs w. \<not> under d p},
       files := (\<lambda>p. if under d p then None else files w p)\<rparr>"

text \<open>
  \<open>os.environ[key] = value\<close>: a \<open>ValueError\<close> when the key or the value holds a NUL
  byte, or when the key is empty or holds \<open>=\<close>; nothing is set then.
\<close>

definition environ_setitem :: "string \<Rightarrow> string \<Rightarrow> world \<Rightarrow> exn option \<times> world" where
  "environ_setitem key val w =
     (if CHR 0x00 \<in> set key \<or> CHR 0x00 \<in> set val
        then (Some (PyExc ''ValueError'' ''embedded null byte''), w)
      else if key = [] \<or> CHR ''='' \<in> set key
        then (Some (PyExc ''ValueError'' ''illegal environment variable name''), w)
      else (None, w\<lparr>environ := (environ w)(key \<mapsto> val)\<rparr>))"

text \<open>Lines 16 and 17.\<close>

definition set_environ :: "config \<Rightarrow> world \<Rightarrow> exn option \<times> world" where
  "set_environ config w0 =
     (case environ_setitem ''WANDB_PROJECT'' (project_name (main config)) w0 of
        (Some e, w1) \<Rightarrow> (Some e, w1)
      | (None, w1) \<Rightarrow> environ_setitem ''WANDB_RUN_GROUP'' (experiment_name (main config)) w1)"

text \<open>\<open>with tempfile.TemporaryDirectory() as tmp_dir\<close>: the directory and the world with it.\<close>

definition enter_tmp :: "externals \<Rightarrow> world \<Rightarrow> string \<times> world" where
  "enter_tmp ext w =
     (let tmp_dir = mkdtemp ext w
      in (tmp_dir, w\<lparr>dirs := insert tmp_dir (dirs w)\<rparr>))"

text \<open>
  The \<open>with\<close> statement up to the end of its body, before the directory is removed, from
  the world that lines 16 and 17 leave.
\<close>

definition go_body :: "externals \<Rightarrow> config \<Rightarrow> world \<Rightarrow> exn option \<times> state" where
  "go_body ext config w =
     with_body ext config (original_cwd ext) (resolve_steps config)
       (snd (enter_tmp ext w), [])"

text \<open>
  \<open>go\<close>: an exception of lines 16 and 17 leaves the function before the \<open>with\<close> statement
  is reached; otherwise the body runs and the directory is removed.
\<close>

definition go :: "externals \<Rightarrow> config \<Rightarrow> world \<Rightarrow> exn option \<times> state" where
  "go ext config w0 =
     (case set_environ config w0 of
        (Some e, w) \<Rightarrow> (Some e, (w, []))
      | (None, w) \<Rightarrow>
          (case go_body ext config w of
             (r, (w', calls)) \<Rightarrow> (r, (cleanup (fst (enter_tmp ext w)) w', calls))))"

subsection \<open>Notions used to state the properties\<close>

text \<open>The directory of a step's component, the \<open>uri\<close> of its call.\<close>

definition component_dir :: "string \<Rightarrow> step \<Rightarrow> string" where
  "component_dir root_path st = path_join root_path [''components'', step_name st]"

text \<open>The world in which a block makes its call: the training block has written its file.\<close>

definition call_world :: "externals \<Rightarrow> config \<Rightarrow> step \<Rightarrow> world \<Rightarrow> world" where
  "call_world ext config st w =
     (if st = TrainRandomForest
      then (case to_yaml ext (pipeline config) of
              Inr text \<Rightarrow> w\<lparr>files := (files w)(rf_config_path w \<mapsto> text)\<rparr>
            | Inl e \<Rightarrow> w)
      else w)"

text \<open>The call of a step in a process whose working directory is that of \<open>w\<close>.\<close>

definition call_of :: "config \<Rightarrow> string \<Rightarrow> world \<Rightarrow> step \<Rightarrow> invocation" where
  "call_of config root_path w st = step_invocation config root_path (rf_config_path w) st"

text \<open>The steps of a list whose names are in the selection, in the order of the list.\<close>

definition selected :: "string list \<Rightarrow> step list \<Rightarrow> step list" where
  "selected sel sts = filter (\<lambda>st. step_name st \<in> set sel) sts"

text \<open>The three components of what \<open>go\<close> leaves behind.\<close>

definition go_raised :: "externals \<Rightarrow> config \<Rightarrow> world \<Rightarrow> exn option" where
  "go_raised ext config w0 = fst (go ext config w0)"

definition go_world :: "externals \<Rightarrow> config \<Rightarrow> world \<Rightarrow> world" where
  "go_world ext config w0 = fst (snd (go ext config w0))"

definition go_calls :: "externals \<Rightarrow> config \<Rightarrow> world \<Rightarrow> (world \<times> invocation) list" where
  "go_calls ext config w0 = snd (snd (go ext config w0))"

text \<open>
  Whether lines 16 and 17 raise nothing, the world they leave, and for a run that reaches
  the \<open>with\<close> statement its temporary directory and the world at the end of its body.
\<close>

definition environ_ok :: "config \<Rightarrow> world \<Rightarrow> bool" where
  "environ_ok config w0 = (fst (set_environ config w0) = None)"

definition environ_world :: "config \<Rightarrow> world \<Rightarrow> world" where
  "environ_world config w0 = snd (set_environ config w0)"

definition tmp_dir :: "externals \<Rightarrow> config \<Rightarrow> world \<Rightarrow> string" where
  "tmp_dir ext config w0 = fst (enter_tmp ext (environ_world config w0))"

definition body_world :: "externals \<Rightarrow> config \<Rightarrow> world \<Rightarrow> world" where
  "body_world ext config w0 = fst (snd (go_body ext config (environ_world config w0)))"

text \<open>
  Two configurations give a step the same to read: the same parameter dictionary, and for
  the training step the same \<open>pipeline\<close> section to serialize.
\<close>

definition same_reads :: "step \<Rightarrow> config \<Rightarrow> config \<Rightarrow> bool" where
  "same_reads st c c' =
     ((\<forall>root_path rf. step_parameters c root_path rf st = step_parameters c' root_path rf st)
      \<and> (st = TrainRandomForest \<longrightarrow> pipeline c = pipeline c'))"

text \<open>A configuration with another value of \<open>execute_steps\<close>.\<close>

definition with_steps :: "config \<Rightarrow> steps_value \<Rightarrow> config" where
  "with_steps config v = config\<lparr>main := (main config)\<lparr>execute_steps := v\<rparr>\<rparr>"

text \<open>
  A sample configuration and one whose project name holds a NUL byte, a sample world, a
  runner that always returns, one that always raises and one that is interrupted, to run
  the definitions on.
\<close>

definition sample_config :: config where
  "sample_config =
     \<lparr>main = \<lparr>project_name = ''nyc_airbnb'', experiment_name = ''development'',
              execute_steps = StepsStr ''data_get,data_clean'', random_state = SInt 42\<rparr>,
      data = \<lparr>sample = ''sample1.csv'', test_size = SFloat 0.2, val_size = SFloat 0.2,
              stratify = SStr ''neighbourhood_group''\<rparr>,
      etl = \<lparr>min_price = SInt 10, max_price = SInt 500\<rparr>,
      data_check = \<lparr>kl_threshold = SFloat 0.2\<rparr>,
      pipeline = \<lparr>export_artifact = ''random_forest_export'',
                  pipeline_rest = [(''max_tfidf_features'', CScalar (SInt 5))]\<rparr>\<rparr>"

definition nul_config :: config where
  "nul_config =
     sample_config\<lparr>main := (main sample_config)\<lparr>project_name := [CHR ''a'', CHR 0x00, CHR ''b'']\<rparr>\<rparr>"

definition sample_world :: world where
  "sample_world = \<lparr>environ = Map.empty, files = Map.empty, dirs = {}, cwd = ''/work'', logger = []\<rparr>"

definition runner_ok :: externals where
  "runner_ok =
     \<lparr>mlflow_run = (\<lambda>w c. None), open_w = (\<lambda>w p. None),
      to_yaml = (\<lambda>p. Inr (''export_artifact: '' @ export_artifact p)),
      mkdtemp = (\<lambda>w. ''/tmp/tmpk3v9x''), original_cwd = ''/repo''\<rparr>"

definition runner_fails :: externals where
  "runner_fails = runner_ok\<lparr>mlflow_run := (\<lambda>w c. Some (PyExc ''ExecutionException'' ''boom''))\<rparr>"

definition runner_interrupted :: externals where
  "runner_interrupted = runner_ok\<lparr>mlflow_run := (\<lambda>w c. Some (PyBaseExc ''KeyboardInterrupt'' []))\<rparr>"

section \<open>Properties of the strings and of one run of the blocks\<close>

lemma with_body_run_steps:
  "with_body ext config root_path sel s = run_steps ext config root_path sel step_order s"
  by (simp add: with_body_def step_order_def and_then_def split: prod.splits option.splits)

lemma split_str_nonempty: "split_str c s \<noteq> []"
  by (induction s) (simp_all split: list.splits)

lemma split_str_no_sep: "c \<notin> set x \<Longrightarrow> split_str c x = [x]"
  by (induction x) auto

lemma split_str_append: "c \<notin> set x \<Longrightarrow> split_str c (x @ c # r) = x # split_str c r"
  by (induction x) auto

lemma split_join:
  "L \<noteq> [] \<Longrightarrow> \<forall>n\<in>set L. c \<notin> set n \<Longrightarrow> split_str c (str_join [c] L) = L"
  by (induction "[c]" L rule: str_join.induct) (auto simp: split_str_no_sep split_str_append)

lemma join_split: "str_join [c] (split_str c s) = s"
proof (induction s)
  case Nil show ?case by simp
next
  case (Cons x xs)
  then show ?case
    using split_str_nonempty[of c xs]
    by (cases "split_str c xs"; cases "tl (split_str c xs)") (auto)
qed

lemma length_split_str: "length (split_str c s) = Suc (count_list s c)"
  by (induction s) (auto split: list.splits simp: split_str_nonempty)

lemma contains_suffix: "contains (xs @ p) p"
proof (induction xs)
  case Nil show ?case by (cases p) (simp_all add: startswith_def)
next
  case (Cons x xs) then show ?case by simp
qed

lemma contains_iff: "contains s p \<longleftrightarrow> (\<exists>pre post. s = pre @ p @ post)"
proof (induction s)
  case Nil show ?case by auto
next
  case (Cons x xs)
  have "startswith (x # xs) p \<longleftrightarrow> (\<exists>post. x # xs = p @ post)"
    unfolding startswith_def by (metis append_eq_conv_conj append_take_drop_id)
  moreover have "(\<exists>pre post. x # xs = pre @ p @ post)
      \<longleftrightarrow> (\<exists>post. x # xs = p @ post) \<or> (\<exists>pre post. xs = pre @ p @ post)"
  proof
    assume "\<exists>pre post. x # xs = pre @ p @ post"
    then obtain pre post where e: "x # xs = pre @ p @ post" by blast
    show "(\<exists>post. x # xs = p @ post) \<or> (\<exists>pre post. xs = pre @ p @ post)"
    proof (cases pre)
      case Nil with e show ?thesis by auto
    next
      case (Cons a pre') with e show ?thesis by auto
    qed
  next
    assume "(\<exists>post. x # xs = p @ post) \<or> (\<exists>pre post. xs = pre @ p @ post)"
    then show "\<exists>pre post. x # xs = pre @ p @ post"
    proof
      assume "\<exists>post. x # xs = p @ post"
      then show ?thesis by (metis append_Nil)
    next
      assume "\<exists>pre post. xs = pre @ p @ post"
      then show ?thesis by (metis append_Cons)
    qed
  qed
  ultimately show ?case using Cons.IH by simp
qed

lemma step_name_inj: "step_name st = step_name st' \<Longrightarrow> st = st'"
  by (cases st; cases st') simp_all

lemma step_name_no_slash: "\<not> startswith (step_name st) ''/''"
  by (cases st) (simp_all add: startswith_def)

lemma step_name_nonempty: "step_name st \<noteq> []"
  by (cases st) simp_all

lemma step_name_no_comma: "CHR '','' \<notin> set (step_name st)"
  by (cases st) simp_all

text \<open>No name of a step lies inside the name of another.\<close>

lemma step_name_contains: "contains (step_name st') (step_name st) \<Longrightarrow> st = st'"
  by (cases st; cases st') (simp_all add: startswith_def)

lemma padded_step_name:
  assumes "pre @ step_name st @ post = step_name st'"
  shows "pre = [] \<and> post = []"
proof -
  from assms have "contains (step_name st') (step_name st)"
    unfolding contains_iff by metis
  then have "st = st'" by (rule step_name_contains)
  with assms have "length (pre @ step_name st @ post) = length (step_name st)" by simp
  then show ?thesis by simp
qed

lemma component_dir_eq:
  "component_dir root_path st = join_step root_path ''components'' @ ''/'' @ step_name st"
proof -
  have "join_step root_path ''components'' \<noteq> []"
    and "last (join_step root_path ''components'') \<noteq> CHR ''/''"
    by (simp_all add: join_step_def startswith_def)
  then show ?thesis
    using step_name_no_slash[of st]
    by (simp add: component_dir_def path_join_def join_step_def[of "join_step root_path ''components''"])
qed

lemma component_dir_inj: "component_dir root_path st = component_dir root_path st' \<Longrightarrow> st = st'"
  by (simp add: component_dir_eq step_name_inj)

lemma startswith_abspath:
  "startswith wd ''/'' \<Longrightarrow> startswith (abspath wd ''rf_config.json'') ''/''"
proof -
  assume a: "startswith wd ''/''"
  define path where "path = path_join wd [''rf_config.json'']"
  from a have p: "startswith path ''/''"
    by (cases wd) (auto simp: path_def path_join_def join_step_def startswith_def)
  then have ne: "path \<noteq> []" by (auto simp: startswith_def)
  have "startswith (normpath path) ''/''"
    using p ne by (auto simp: normpath_def Let_def startswith_def)
  then show ?thesis by (simp add: abspath_def path_def startswith_def)
qed

subsection \<open>One block\<close>

lemma step_invocation_rf:
  "st \<noteq> TrainRandomForest \<Longrightarrow> step_invocation config root_path rf st = step_invocation config root_path rf' st"
  by (cases st) (simp_all add: step_invocation_def)

lemma uri_call_of [simp]: "uri (call_of config root_path w st) = component_dir root_path st"
  by (simp add: call_of_def step_invocation_def component_dir_def)

lemma try_step_open_fails:
  "st = TrainRandomForest \<Longrightarrow> open_w ext w (rf_config_path w) = Some e \<Longrightarrow>
   try_step ext config root_path st (w, cs) = (Some e, (except_Exception e w, cs))"
  by (simp add: try_step_def)

lemma try_step_yaml_fails:
  "st = TrainRandomForest \<Longrightarrow> open_w ext w (rf_config_path w) = None \<Longrightarrow>
   to_yaml ext (pipeline config) = Inl e \<Longrightarrow>
   try_step ext config root_path st (w, cs) =
     (Some e, (except_Exception e (w\<lparr>files := (files w)(rf_config_path w \<mapsto> [])\<rparr>), cs))"
  by (simp add: try_step_def Let_def)

lemma try_step_delegates:
  "st = TrainRandomForest \<longrightarrow>
     open_w ext w (rf_config_path w) = None \<and> (\<exists>y. to_yaml ext (pipeline config) = Inr y) \<Longrightarrow>
   try_step ext config root_path st (w, cs) =
     delegate ext (call_of config root_path w st) (call_world ext config st w, cs)"
  using step_invocation_rf[of st config root_path "[]" "rf_config_path w"]
  by (auto simp: try_step_def call_world_def call_of_def Let_def)

lemma delegate_ok:
  "mlflow_run ext w c = None \<Longrightarrow> delegate ext c (w, cs) = (None, (w, cs @ [(w, c)]))"
  by (simp add: delegate_def)

lemma delegate_raises:
  "mlflow_run ext w c = Some e \<Longrightarrow>
   delegate ext c (w, cs) = (Some e, (except_Exception e w, cs @ [(w, c)]))"
  by (simp add: delegate_def)

text \<open>The ways a block can end.\<close>

lemma step_block_cases:
  assumes "step_block ext config root_path sel st (w, cs) = (r, (w', cs'))"
  obtains
    (skipped) "step_name st \<notin> set sel" "r = None" "w' = w" "cs' = cs"
  | (open_failed) e where "step_name st \<in> set sel" "st = TrainRandomForest"
      "open_w ext w (rf_config_path w) = Some e" "r = Some e" "w' = except_Exception e w"
      "cs' = cs"
  | (yaml_failed) e where "step_name st \<in> set sel" "st = TrainRandomForest"
      "open_w ext w (rf_config_path w) = None" "to_yaml ext (pipeline config) = Inl e"
      "r = Some e"
      "w' = except_Exception e (w\<lparr>files := (files w)(rf_config_path w \<mapsto> [])\<rparr>)" "cs' = cs"
  | (returned) "step_name st \<in> set sel"
      "st = TrainRandomForest \<longrightarrow>
         open_w ext w (rf_config_path w) = None \<and> (\<exists>y. to_yaml ext (pipeline config) = Inr y)"
      "mlflow_run ext (call_world ext config st w) (call_of config root_path w st) = None"
      "r = None" "w' = call_world ext config st w"
      "cs' = cs @ [(call_world ext config st w, call_of config root_path w st)]"
  | (raised) e where "step_name st \<in> set sel"
      "st = TrainRandomForest \<longrightarrow>
         open_w ext w (rf_config_path w) = None \<and> (\<exists>y. to_yaml ext (pipeline config) = Inr y)"
      "mlflow_run ext (call_world ext config st w) (call_of config root_path w st) = Some e"
      "r = Some e" "w' = except_Exception e (call_world ext config st w)"
      "cs' = cs @ [(call_world ext config st w, call_of config root_path w st)]"
proof (cases "step_name st \<in> set sel")
  case False
  with assms show ?thesis by (intro skipped) (auto simp: step_block_def)
next
  case sel: True
  consider (a) e where "st = TrainRandomForest" "open_w ext w (rf_config_path w) = Some e"
    | (b) e where "st = TrainRandomForest" "open_w ext w (rf_config_path w) = None"
        "to_yaml ext (pipeline config) = Inl e"
    | (c) "st = TrainRandomForest \<longrightarrow>
         open_w ext w (rf_config_path w) = None \<and> (\<exists>y. to_yaml ext (pipeline config) = Inr y)"
    by (cases "open_w ext w (rf_config_path w)"; cases "to_yaml ext (pipeline config)") auto
  then show ?thesis
  proof cases
    case a
    with sel assms show ?thesis
      by (intro open_failed[of e]) (auto simp: step_block_def try_step_open_fails)
  next
    case b
    with sel assms show ?thesis
      by (intro yaml_failed[of e]) (auto simp: step_block_def try_step_yaml_fails)
  next
    case c
    note ts = try_step_delegates[OF c, where root_path = root_path and cs = cs]
    show ?thesis
    proof (cases "mlflow_run ext (call_world ext config st w) (call_of config root_path w st)")
      case None
      with sel c assms ts show ?thesis
        by (intro returned) (auto simp: step_block_def delegate_ok)
    next
      case (Some e)
      with sel c assms ts show ?thesis
        by (intro raised[of e]) (auto simp: step_block_def delegate_raises)
    qed
  qed
qed

lemma call_world_frame [simp]:
  "cwd (call_world ext config st w) = cwd w"
  "environ (call_world ext config st w) = environ w"
  "dirs (call_world ext config st w) = dirs w"
  "logger (call_world ext config st w) = logger w"
  "rf_config_path (call_world ext config st w) = rf_config_path w"
  by (simp_all add: call_world_def rf_config_path_def split: sum.splits)

lemma except_Exception_frame [simp]:
  "cwd (except_Exception e w) = cwd w"
  "environ (except_Exception e w) = environ w"
  "dirs (except_Exception e w) = dirs w"
  "files (except_Exception e w) = files w"
  "logger (except_Exception e w) =
     logger w @ (if is_Exception e then [''MLflow run failed: '' @ exc_str e] else [])"
  "rf_config_path (except_Exception e w) = rf_config_path w"
  by (simp_all add: except_Exception_def log_error_def rf_config_path_def)

lemma call_of_cong:
  "rf_config_path w' = rf_config_path w \<Longrightarrow> call_of config root_path w' = call_of config root_path w"
  by (simp add: call_of_def fun_eq_iff)

lemma call_of_call_world [simp]:
  "call_of config root_path (call_world ext config st w) = call_of config root_path w"
  by (rule call_of_cong) simp

subsection \<open>The blocks one after the other\<close>

text \<open>How a run over \<open>st # sts\<close> decomposes.\<close>

lemma run_steps_Cons_cases:
  assumes "run_steps ext config root_path sel (st # sts) (w, cs) = (r, (w', cs'))"
  obtains
    (skipped) "step_name st \<notin> set sel"
      "run_steps ext config root_path sel sts (w, cs) = (r, (w', cs'))"
  | (open_failed) e where "step_name st \<in> set sel" "st = TrainRandomForest"
      "open_w ext w (rf_config_path w) = Some e" "r = Some e" "w' = except_Exception e w"
      "cs' = cs"
  | (yaml_failed) e where "step_name st \<in> set sel" "st = TrainRandomForest"
      "open_w ext w (rf_config_path w) = None" "to_yaml ext (pipeline config) = Inl e"
      "r = Some e"
      "w' = except_Exception e (w\<lparr>files := (files w)(rf_config_path w \<mapsto> [])\<rparr>)" "cs' = cs"
  | (returned) "step_name st \<in> set sel"
      "st = TrainRandomForest \<longrightarrow>
         open_w ext w (rf_config_path w) = None \<and> (\<exists>y. to_yaml ext (pipeline config) = Inr y)"
      "mlflow_run ext (call_world ext config st w) (call_of config root_path w st) = None"
      "run_steps ext config root_path sel sts
         (call_world ext config st w,
          cs @ [(call_world ext config st w, call_of config root_path w st)]) = (r, (w', cs'))"
  | (raised) e where "step_name st \<in> set sel"
      "st = TrainRandomForest \<longrightarrow>
         open_w ext w (rf_config_path w) = None \<and> (\<exists>y. to_yaml ext (pipeline config) = Inr y)"
      "mlflow_run ext (call_world ext config st w) (call_of config root_path w st) = Some e"
      "r = Some e" "w' = except_Exception e (call_world ext config st w)"
      "cs' = cs @ [(call_world ext config st w, call_of config root_path w st)]"
proof -
  obtain r1 w1 cs1 where b: "step_block ext config root_path sel st (w, cs) = (r1, (w1, cs1))"
    by (metis prod.exhaust)
  from b show ?thesis
  proof (cases rule: step_block_cases)
    case skipped with b assms show ?thesis by (intro that(1)) auto
  next
    case (open_failed e) with b assms show ?thesis by (intro that(2)[of e]) auto
  next
    case (yaml_failed e) with b assms show ?thesis by (intro that(3)[of e]) auto
  next
    case returned with b assms show ?thesis by (intro that(4)) auto
  next
    case (raised e) with b assms show ?thesis by (intro that(5)[of e]) auto
  qed
qed

text \<open>The environment, the working directory and the directories are the same in every
  world of a run.\<close>

lemma run_steps_snapshots:
  assumes "run_steps ext config root_path sel sts (w, cs) = (r, (w', cs'))"
    and "environ w = E" "cwd w = C" "dirs w = D"
    and "\<forall>x\<in>set cs. environ (fst x) = E \<and> cwd (fst x) = C \<and> dirs (fst x) = D"
  shows "environ w' = E \<and> cwd w' = C \<and> dirs w' = D \<and>
         (\<forall>x\<in>set cs'. environ (fst x) = E \<and> cwd (fst x) = C \<and> dirs (fst x) = D)"
  using assms
proof (induction sts arbitrary: w cs)
  case Nil then show ?case by simp
next
  case (Cons st sts)
  from Cons.prems(1) show ?case
  proof (cases rule: run_steps_Cons_cases)
    case skipped
    from Cons.IH[OF skipped(2) Cons.prems(2-5)] show ?thesis .
  next
    case (open_failed e) with Cons.prems show ?thesis by simp
  next
    case (yaml_failed e) with Cons.prems show ?thesis by simp
  next
    case returned
    show ?thesis
      by (rule Cons.IH[OF returned(4)]) (use Cons.prems in simp_all)
  next
    case (raised e) with Cons.prems show ?thesis by simp
  qed
qed

text \<open>The records of the logger: none when the run returns, one when it raises an
  \<open>Exception\<close>.\<close>

lemma run_steps_logger:
  assumes "run_steps ext config root_path sel sts (w, cs) = (r, (w', cs'))"
  shows "logger w' = logger w @
           (case r of None \<Rightarrow> []
            | Some e \<Rightarrow> if is_Exception e then [''MLflow run failed: '' @ exc_str e] else [])"
  using assms
proof (induction sts arbitrary: w cs)
  case Nil then show ?case by simp
next
  case (Cons st sts)
  from Cons.prems(1) show ?case
  proof (cases rule: run_steps_Cons_cases)
    case skipped
    from Cons.IH[OF skipped(2)] show ?thesis .
  next
    case (open_failed e) then show ?thesis by simp
  next
    case (yaml_failed e) then show ?thesis by simp
  next
    case returned
    from Cons.IH[OF returned(4)] show ?thesis by simp
  next
    case (raised e) then show ?thesis by simp
  qed
qed

text \<open>A call that raised is the last call, and its exception is the result.\<close>

lemma run_steps_raised_last:
  assumes "run_steps ext config root_path sel sts (w, cs) = (r, (w', cs'))"
    and "\<forall>x\<in>set cs. mlflow_run ext (fst x) (snd x) = None"
    and "x \<in> set cs'" "mlflow_run ext (fst x) (snd x) = Some e"
  shows "r = Some e \<and> x = last cs'"
  using assms
proof (induction sts arbitrary: w cs)
  case Nil then show ?case by auto
next
  case (Cons st sts)
  from Cons.prems(1) show ?case
  proof (cases rule: run_steps_Cons_cases)
    case skipped
    from Cons.IH[OF skipped(2) Cons.prems(2-4)] show ?thesis .
  next
    case (open_failed e') with Cons.prems show ?thesis by auto
  next
    case (yaml_failed e') with Cons.prems show ?thesis by auto
  next
    case returned
    show ?thesis
      by (rule Cons.IH[OF returned(4) _ Cons.prems(3,4)]) (use Cons.prems(2) returned(3) in simp)
  next
    case (raised e') with Cons.prems show ?thesis by auto
  qed
qed

text \<open>The calls made are those of an initial segment of the selected steps, in the order
  of the list; all of them when the run returns.\<close>

lemma run_steps_order:
  assumes "run_steps ext config root_path sel sts (w, cs) = (r, (w', cs'))"
  shows "\<exists>k\<le>length (selected sel sts).
           map snd cs' = map snd cs @ map (call_of config root_path w) (take k (selected sel sts))
           \<and> (r = None \<longrightarrow> k = length (selected sel sts))"
  using assms
proof (induction sts arbitrary: w cs)
  case Nil then show ?case by (simp add: selected_def)
next
  case (Cons st sts)
  from Cons.prems(1) show ?case
  proof (cases rule: run_steps_Cons_cases)
    case skipped
    from Cons.IH[OF skipped(2)] skipped(1) show ?thesis by (simp add: selected_def)
  next
    case (open_failed e)
    then show ?thesis by (intro exI[of _ 0]) simp
  next
    case (yaml_failed e)
    then show ?thesis by (intro exI[of _ 0]) simp
  next
    case returned
    from Cons.IH[OF returned(4)] obtain k where
      k: "k \<le> length (selected sel sts)"
        "map snd cs' = map snd cs @ call_of config root_path w st
           # map (call_of config root_path w) (take k (selected sel sts))"
        "r = None \<longrightarrow> k = length (selected sel sts)"
      by auto
    with returned(1) show ?thesis by (intro exI[of _ "Suc k"]) (simp add: selected_def)
  next
    case (raised e)
    then show ?thesis by (intro exI[of _ "Suc 0"]) (simp add: selected_def)
  qed
qed

text \<open>A step that is not selected is not called.\<close>

lemma run_steps_absent:
  assumes "run_steps ext config root_path sel sts (w, cs) = (r, (w', cs'))"
    and "step_name st0 \<notin> set sel"
    and "\<forall>x\<in>set cs. uri (snd x) \<noteq> component_dir root_path st0"
  shows "\<forall>x\<in>set cs'. uri (snd x) \<noteq> component_dir root_path st0"
proof -
  from run_steps_order[OF assms(1)] obtain k where
    k: "map snd cs' = map snd cs @ map (call_of config root_path w) (take k (selected sel sts))"
    by blast
  have "uri c \<noteq> component_dir root_path st0" if "c \<in> set (map snd cs')" for c
  proof -
    from that k consider "c \<in> snd ` set cs"
      | st where "st \<in> set (take k (selected sel sts))" "c = call_of config root_path w st"
      by auto
    then show ?thesis
    proof cases
      case 1 with assms(3) show ?thesis by auto
    next
      case 2
      then have "st \<in> set (selected sel sts)" by (meson in_set_takeD)
      then have "step_name st \<in> set sel" by (simp add: selected_def)
      with assms(2) have "st \<noteq> st0" by auto
      with 2 show ?thesis by (auto dest: component_dir_inj)
    qed
  qed
  then show ?thesis by auto
qed


text \<open>The call of the training step is made in a world where the configuration file is
  written, with the path of that file as \<open>rf_config\<close>.\<close>

lemma run_steps_train:
  assumes "run_steps ext config root_path sel sts (w, cs) = (r, (w', cs'))"
    and "rf_config_path w = p"
    and "\<And>y. to_yaml ext (pipeline config) = Inr y \<Longrightarrow> F(p \<mapsto> y) = G"
    and "files w = F \<or> files w = G"
    and "\<forall>x\<in>set cs. uri (snd x) = component_dir root_path TrainRandomForest \<longrightarrow>
            (\<exists>y. to_yaml ext (pipeline config) = Inr y) \<and> files (fst x) = G
          \<and> snd x = step_invocation config root_path p TrainRandomForest"
  shows "\<forall>x\<in>set cs'. uri (snd x) = component_dir root_path TrainRandomForest \<longrightarrow>
            (\<exists>y. to_yaml ext (pipeline config) = Inr y) \<and> files (fst x) = G
          \<and> snd x = step_invocation config root_path p TrainRandomForest"
  using assms(1,2,4,5)
proof (induction sts arbitrary: w cs)
  case Nil then show ?case by simp
next
  case (Cons st sts)
  have upd: "(files w)(p \<mapsto> y) = G" if "to_yaml ext (pipeline config) = Inr y" for y
  proof -
    from assms(3)[OF that] have g: "F(p \<mapsto> y) = G" .
    then have "G(p \<mapsto> y) = G" by auto
    with g Cons.prems(3) show ?thesis by metis
  qed
  have cwf: "files (call_world ext config st w) = G"
    if "st = TrainRandomForest" "to_yaml ext (pipeline config) = Inr y" for y
    using that upd[OF that(2)] Cons.prems(2) by (simp add: call_world_def)
  have cwo: "call_world ext config st w = w" if "st \<noteq> TrainRandomForest"
    using that by (simp add: call_world_def)
  have new: "uri (call_of config root_path w st) = component_dir root_path TrainRandomForest \<longrightarrow>
            (\<exists>y. to_yaml ext (pipeline config) = Inr y) \<and> files (call_world ext config st w) = G
          \<and> call_of config root_path w st = step_invocation config root_path p TrainRandomForest"
    if ok: "st = TrainRandomForest \<longrightarrow> (\<exists>y. to_yaml ext (pipeline config) = Inr y)"
  proof (cases "st = TrainRandomForest")
    case True
    with ok obtain y where y: "to_yaml ext (pipeline config) = Inr y" by blast
    with cwf[OF True y] True Cons.prems(2) show ?thesis by (auto simp: call_of_def)
  next
    case False
    then have "component_dir root_path st \<noteq> component_dir root_path TrainRandomForest"
      by (auto dest: component_dir_inj)
    then show ?thesis by simp
  qed
  from Cons.prems(1) show ?case
  proof (cases rule: run_steps_Cons_cases)
    case skipped
    from Cons.IH[OF skipped(2) Cons.prems(2-4)] show ?thesis .
  next
    case (open_failed e) with Cons.prems show ?thesis by simp
  next
    case (yaml_failed e) with Cons.prems show ?thesis by simp
  next
    case returned
    then have ok: "st = TrainRandomForest \<longrightarrow> (\<exists>y. to_yaml ext (pipeline config) = Inr y)"
      by blast
    have q: "\<forall>x\<in>set (cs @ [(call_world ext config st w, call_of config root_path w st)]).
            uri (snd x) = component_dir root_path TrainRandomForest \<longrightarrow>
            (\<exists>y. to_yaml ext (pipeline config) = Inr y) \<and> files (fst x) = G
            \<and> snd x = step_invocation config root_path p TrainRandomForest"
      using Cons.prems(4) new[OF ok] by auto
    have i: "files (call_world ext config st w) = F \<or> files (call_world ext config st w) = G"
    proof (cases "st = TrainRandomForest")
      case True
      with ok obtain y where "to_yaml ext (pipeline config) = Inr y" by blast
      from cwf[OF True this] show ?thesis by simp
    next
      case False
      from cwo[OF this] Cons.prems(3) show ?thesis by simp
    qed
    have "rf_config_path (call_world ext config st w) = p"
      using Cons.prems(2) by simp
    from Cons.IH[OF returned(4) this i q] show ?thesis .
  next
    case (raised e)
    then have ok: "st = TrainRandomForest \<longrightarrow> (\<exists>y. to_yaml ext (pipeline config) = Inr y)"
      by blast
    have "\<forall>x\<in>set (cs @ [(call_world ext config st w, call_of config root_path w st)]).
            uri (snd x) = component_dir root_path TrainRandomForest \<longrightarrow>
            (\<exists>y. to_yaml ext (pipeline config) = Inr y) \<and> files (fst x) = G
            \<and> snd x = step_invocation config root_path p TrainRandomForest"
      using Cons.prems(4) new[OF ok] by auto
    with raised show ?thesis by simp
  qed
qed

text \<open>A run reads of the configuration what the selected steps read, and of the selection
  which names of steps it holds.\<close>

lemma try_step_agree:
  assumes "same_reads st config config'"
  shows "try_step ext config root_path st s = try_step ext config' root_path st s"
proof -
  from assms have p: "step_invocation config root_path rf st = step_invocation config' root_path rf st"
    for rf by (simp add: same_reads_def step_invocation_def)
  from assms have q: "st = TrainRandomForest \<Longrightarrow> pipeline config = pipeline config'"
    by (simp add: same_reads_def)
  show ?thesis
  proof (cases "st = TrainRandomForest")
    case True
    from p[unfolded True] q[OF True] True show ?thesis
      by (cases s) (simp add: try_step_def Let_def split: option.splits sum.splits)
  next
    case False
    with p show ?thesis by (cases s) (simp add: try_step_def)
  qed
qed

lemma run_steps_agree:
  assumes "\<forall>st\<in>set sts. (step_name st \<in> set sel \<longleftrightarrow> step_name st \<in> set sel')
             \<and> (step_name st \<in> set sel \<longrightarrow> same_reads st config config')"
  shows "run_steps ext config root_path sel sts s = run_steps ext config' root_path sel' sts s"
  using assms
proof (induction sts arbitrary: s)
  case Nil show ?case by simp
next
  case (Cons st sts)
  then have b: "step_block ext config root_path sel st s = step_block ext config' root_path sel' st s"
    by (auto simp: step_block_def try_step_agree)
  from Cons have "\<And>s. run_steps ext config root_path sel sts s =
    run_steps ext config' root_path sel' sts s" by simp
  with b show ?case by (simp split: prod.splits option.splits)
qed

section \<open>Properties of a whole run\<close>

lemmas run_defs = go_def go_body_def with_body_def and_then_def step_block_def try_step_def
  delegate_def step_invocation_def resolve_steps_def enter_tmp_def set_environ_def
  environ_setitem_def environ_ok_def environ_world_def body_world_def
  go_calls_def go_raised_def go_world_def tmp_dir_def with_steps_def log_error_def
  except_Exception_def path_join_def join_step_def startswith_def Let_def

lemmas sample_defs = run_defs sample_config_def nul_config_def sample_world_def runner_ok_def
  runner_fails_def runner_interrupted_def

subsection \<open>Lines 16 and 17\<close>

lemma environ_ok_iff:
  "environ_ok config w0 \<longleftrightarrow>
     CHR 0x00 \<notin> set (project_name (main config)) \<and> CHR 0x00 \<notin> set (experiment_name (main config))"
  by (auto simp: environ_ok_def set_environ_def environ_setitem_def)

lemma environ_world_ok:
  "environ_ok config w0 \<Longrightarrow>
   environ_world config w0 =
     w0\<lparr>environ := (environ w0)(''WANDB_PROJECT'' \<mapsto> project_name (main config),
                                ''WANDB_RUN_GROUP'' \<mapsto> experiment_name (main config))\<rparr>"
  by (auto simp: environ_ok_iff environ_world_def set_environ_def environ_setitem_def)

lemma environ_world_frame [simp]:
  "files (environ_world config w0) = files w0"
  "dirs (environ_world config w0) = dirs w0"
  "cwd (environ_world config w0) = cwd w0"
  "logger (environ_world config w0) = logger w0"
  "rf_config_path (environ_world config w0) = rf_config_path w0"
  by (simp_all add: environ_world_def set_environ_def environ_setitem_def rf_config_path_def)

lemma set_environ_raises:
  "\<not> environ_ok config w0 \<Longrightarrow>
   fst (set_environ config w0) = Some (PyExc ''ValueError'' ''embedded null byte'')"
  by (auto simp: environ_ok_def set_environ_def environ_setitem_def split: if_splits)

lemma enter_tmp_world [simp]:
  "environ (snd (enter_tmp ext w)) = environ w"
  "files (snd (enter_tmp ext w)) = files w"
  "cwd (snd (enter_tmp ext w)) = cwd w"
  "logger (snd (enter_tmp ext w)) = logger w"
  "dirs (snd (enter_tmp ext w)) = insert (fst (enter_tmp ext w)) (dirs w)"
  "rf_config_path (snd (enter_tmp ext w)) = rf_config_path w"
  by (simp_all add: enter_tmp_def Let_def rf_config_path_def)

lemma cleanup_frame [simp]:
  "environ (cleanup d w) = environ w"
  "cwd (cleanup d w) = cwd w"
  "logger (cleanup d w) = logger w"
  "dirs (cleanup d w) = {p \<in> dirs w. \<not> under d p}"
  "files (cleanup d w) p = (if under d p then None else files w p)"
  by (simp_all add: cleanup_def)

subsection \<open>The two shapes of a run\<close>

text \<open>When lines 16 and 17 raise, \<open>go\<close> ends there: no directory, no call.\<close>

lemma go_not_ok:
  assumes "\<not> environ_ok config w0"
  shows "go_raised ext config w0 = Some (PyExc ''ValueError'' ''embedded null byte'')"
    and "go_world ext config w0 = environ_world config w0"
    and "go_calls ext config w0 = []"
proof -
  from set_environ_raises[OF assms] obtain w where
    "set_environ config w0 = (Some (PyExc ''ValueError'' ''embedded null byte''), w)"
    by (metis prod.collapse)
  then show "go_raised ext config w0 = Some (PyExc ''ValueError'' ''embedded null byte'')"
    and "go_world ext config w0 = environ_world config w0"
    and "go_calls ext config w0 = []"
    by (simp_all add: go_def go_raised_def go_world_def go_calls_def environ_world_def)
qed

text \<open>Otherwise a run of \<open>go\<close> is a run of the six blocks from the world entered with the
  temporary directory, followed by the removal of that directory.\<close>

lemma go_run:
  assumes "environ_ok config w0"
  obtains w4 where
    "run_steps ext config (original_cwd ext) (resolve_steps config) step_order
       (snd (enter_tmp ext (environ_world config w0)), [])
       = (go_raised ext config w0, (w4, go_calls ext config w0))"
    "go_world ext config w0 = cleanup (tmp_dir ext config w0) w4"
    "body_world ext config w0 = w4"
proof -
  from assms have s: "set_environ config w0 = (None, environ_world config w0)"
    by (simp add: environ_ok_def environ_world_def prod_eq_iff)
  obtain r w4 cs where b: "go_body ext config (environ_world config w0) = (r, (w4, cs))"
    by (metis prod.exhaust)
  with s have "go ext config w0 = (r, (cleanup (tmp_dir ext config w0) w4, cs))"
    by (simp add: go_def tmp_dir_def)
  with b show ?thesis
    by (intro that[of w4])
       (simp_all add: go_raised_def go_world_def go_calls_def go_body_def body_world_def
          with_body_run_steps)
qed

subsection \<open>Facts about a whole run, shared by the properties below\<close>

lemma go_calls_order:
  "\<exists>k\<le>length (selected (resolve_steps config) step_order).
     map snd (go_calls ext config w0) =
       map (call_of config (original_cwd ext) w0) (take k (selected (resolve_steps config) step_order))
     \<and> (go_raised ext config w0 = None \<longrightarrow> k = length (selected (resolve_steps config) step_order))"
proof (cases "environ_ok config w0")
  case False
  from go_not_ok[OF False, of ext] show ?thesis by (intro exI[of _ 0]) simp
next
  case True
  obtain w4 where run: "run_steps ext config (original_cwd ext) (resolve_steps config) step_order
       (snd (enter_tmp ext (environ_world config w0)), [])
       = (go_raised ext config w0, (w4, go_calls ext config w0))"
    by (rule go_run[OF True])
  have "call_of config (original_cwd ext) (snd (enter_tmp ext (environ_world config w0)))
          = call_of config (original_cwd ext) w0"
    by (rule call_of_cong) simp
  with run_steps_order[OF run] show ?thesis by simp
qed

lemma go_calls_absent:
  assumes "step_name st \<notin> set (resolve_steps config)"
  shows "\<forall>x\<in>set (go_calls ext config w0). uri (snd x) \<noteq> component_dir (original_cwd ext) st"
proof (cases "environ_ok config w0")
  case False
  from go_not_ok(3)[OF False, of ext] show ?thesis by simp
next
  case True
  obtain w4 where run: "run_steps ext config (original_cwd ext) (resolve_steps config) step_order
       (snd (enter_tmp ext (environ_world config w0)), [])
       = (go_raised ext config w0, (w4, go_calls ext config w0))"
    by (rule go_run[OF True])
  show ?thesis by (rule run_steps_absent[OF run assms]) simp
qed

lemma go_logger:
  "logger (go_world ext config w0) =
     logger w0 @ (case go_raised ext config w0 of None \<Rightarrow> []
                  | Some e \<Rightarrow> if environ_ok config w0 \<and> is_Exception e
                              then [''MLflow run failed: '' @ exc_str e] else [])"
proof (cases "environ_ok config w0")
  case False
  from go_not_ok[OF False, of ext] False show ?thesis by simp
next
  case True
  obtain w4 where run: "run_steps ext config (original_cwd ext) (resolve_steps config) step_order
       (snd (enter_tmp ext (environ_world config w0)), [])
       = (go_raised ext config w0, (w4, go_calls ext config w0))"
    and w: "go_world ext config w0 = cleanup (tmp_dir ext config w0) w4"
    by (rule go_run[OF True])
  from run_steps_logger[OF run] w True show ?thesis by (simp split: option.splits)
qed

lemma go_raised_last:
  assumes "x \<in> set (go_calls ext config w0)" and "mlflow_run ext (fst x) (snd x) = Some e"
  shows "go_raised ext config w0 = Some e \<and> x = last (go_calls ext config w0)"
    and "environ_ok config w0"
proof -
  show ok: "environ_ok config w0"
    using assms(1) go_not_ok(3)[of config w0 ext] by (metis empty_iff list.set(1))
  obtain w4 where run: "run_steps ext config (original_cwd ext) (resolve_steps config) step_order
       (snd (enter_tmp ext (environ_world config w0)), [])
       = (go_raised ext config w0, (w4, go_calls ext config w0))"
    by (rule go_run[OF ok])
  show "go_raised ext config w0 = Some e \<and> x = last (go_calls ext config w0)"
    by (rule run_steps_raised_last[OF run _ assms]) simp
qed

lemma go_train:
  assumes "x \<in> set (go_calls ext config w0)"
    and "uri (snd x) = component_dir (original_cwd ext) TrainRandomForest"
  obtains y where "to_yaml ext (pipeline config) = Inr y"
    and "files (fst x) = (files w0)(rf_config_path w0 \<mapsto> y)"
    and "snd x = step_invocation config (original_cwd ext) (rf_config_path w0) TrainRandomForest"
proof -
  have ok: "environ_ok config w0"
    using assms(1) go_not_ok(3)[of config w0 ext] by (metis empty_iff list.set(1))
  obtain w4 where run: "run_steps ext config (original_cwd ext) (resolve_steps config) step_order
       (snd (enter_tmp ext (environ_world config w0)), [])
       = (go_raised ext config w0, (w4, go_calls ext config w0))"
    by (rule go_run[OF ok])
  define G where "G = (case to_yaml ext (pipeline config) of
      Inr y \<Rightarrow> (files w0)(rf_config_path w0 \<mapsto> y) | Inl e \<Rightarrow> files w0)"
  have g: "(files w0)(rf_config_path w0 \<mapsto> y) = G" if "to_yaml ext (pipeline config) = Inr y" for y
    using that by (simp add: G_def)
  have "\<forall>x\<in>set (go_calls ext config w0).
          uri (snd x) = component_dir (original_cwd ext) TrainRandomForest \<longrightarrow>
            (\<exists>y. to_yaml ext (pipeline config) = Inr y) \<and> files (fst x) = G
          \<and> snd x = step_invocation config (original_cwd ext) (rf_config_path w0) TrainRandomForest"
    by (rule run_steps_train[OF run _ g]) simp_all
  with assms obtain y where y: "to_yaml ext (pipeline config) = Inr y"
    and "files (fst x) = G"
    and "snd x = step_invocation config (original_cwd ext) (rf_config_path w0) TrainRandomForest"
    by blast
  with g[OF y] show ?thesis by (intro that[of y]) simp_all
qed

lemma go_agree:
  assumes "project_name (main config') = project_name (main config)"
    and "experiment_name (main config') = experiment_name (main config)"
    and "\<forall>st. (step_name st \<in> set (resolve_steps config) \<longleftrightarrow> step_name st \<in> set (resolve_steps config'))
           \<and> (step_name st \<in> set (resolve_steps config) \<longrightarrow> same_reads st config config')"
  shows "go ext config' w0 = go ext config w0"
proof -
  have s: "set_environ config' w0 = set_environ config w0"
    unfolding set_environ_def assms(1) assms(2) by (rule refl)
  have "go_body ext config w = go_body ext config' w" for w
    unfolding go_body_def with_body_run_steps
    by (rule run_steps_agree) (use assms(3) in simp)
  with s show ?thesis by (simp add: go_def split: prod.splits option.splits)
qed

lemma same_reads_with_steps: "same_reads st (with_steps config v) (with_steps config v')"
  by (cases st) (simp_all add: same_reads_def with_steps_def)

lemma resolve_steps_with_steps [simp]:
  "resolve_steps (with_steps config (StepsStr s)) = split_str CHR '','' s"
  "resolve_steps (with_steps config (StepsList L)) = L"
  by (simp_all add: resolve_steps_def with_steps_def)

lemma go_sel_cong:
  assumes "\<forall>st. step_name st \<in> set (resolve_steps (with_steps config v))
                \<longleftrightarrow> step_name st \<in> set (resolve_steps (with_steps config v'))"
  shows "go ext (with_steps config v) w0 = go ext (with_steps config v') w0"
  by (rule go_agree) (use assms same_reads_with_steps in \<open>simp_all add: with_steps_def\<close>)

section \<open>The claims\<close>

text \<open>
  C9 (as written, for the record of its failure). For a configuration whose project name
  holds a NUL byte, \<open>os.environ["WANDB_PROJECT"] = ...\<close> raises \<open>ValueError\<close> at line 16:
  the run ends there, neither variable is set and no step is attempted.
\<close>

theorem environ_not_set_for_nul_name:
  "go_raised runner_ok nul_config sample_world = Some (PyExc ''ValueError'' ''embedded null byte'')
   \<and> environ (go_world runner_ok nul_config sample_world) ''WANDB_PROJECT'' = None
   \<and> environ (go_world runner_ok nul_config sample_world) ''WANDB_RUN_GROUP'' = None
   \<and> go_calls runner_ok nul_config sample_world = []"
  by (simp add: sample_defs)

text \<open>
  C9, amended. For every configuration whose project and experiment names hold no NUL
  byte, the two environment variables are set before the call of any step is attempted,
  \<open>WANDB_PROJECT\<close> to \<open>config.main.project_name\<close> and \<open>WANDB_RUN_GROUP\<close> to
  \<open>config.main.experiment_name\<close>, and no step changes the environment: every call is made
  in the environment that lines 16 and 17 leave, and so is the end of the run. For the other
  configurations \<open>go\<close> raises \<open>ValueError\<close> and attempts no step. In every run, whatever
  the configuration, each call that is made sees both variables set, in the environment
  that the run ends with.
\<close>

theorem environ_set_before_steps:
  "(CHR 0x00 \<notin> set (project_name (main config)) \<and> CHR 0x00 \<notin> set (experiment_name (main config))
      \<longrightarrow> environ (go_world ext config w0)
            = (environ w0)(''WANDB_PROJECT'' \<mapsto> project_name (main config),
                           ''WANDB_RUN_GROUP'' \<mapsto> experiment_name (main config)))
   \<and> (\<forall>x\<in>set (go_calls ext config w0).
          environ (fst x) = environ (go_world ext config w0)
        \<and> environ (fst x) ''WANDB_PROJECT'' = Some (project_name (main config))
        \<and> environ (fst x) ''WANDB_RUN_GROUP'' = Some (experiment_name (main config)))
   \<and> (CHR 0x00 \<in> set (project_name (main config)) \<or> CHR 0x00 \<in> set (experiment_name (main config))
      \<longrightarrow> go_raised ext config w0 = Some (PyExc ''ValueError'' ''embedded null byte'')
        \<and> go_calls ext config w0 = [])"
proof (cases "environ_ok config w0")
  case False
  with go_not_ok[OF False, of ext] show ?thesis by (auto simp: environ_ok_iff)
next
  case True
  obtain w4 where run: "run_steps ext config (original_cwd ext) (resolve_steps config) step_order
       (snd (enter_tmp ext (environ_world config w0)), [])
       = (go_raised ext config w0, (w4, go_calls ext config w0))"
    and w: "go_world ext config w0 = cleanup (tmp_dir ext config w0) w4"
    by (rule go_run[OF True])
  let ?E = "(environ w0)(''WANDB_PROJECT'' \<mapsto> project_name (main config),
                         ''WANDB_RUN_GROUP'' \<mapsto> experiment_name (main config))"
  have e: "environ (snd (enter_tmp ext (environ_world config w0))) = ?E"
    by (simp add: environ_world_ok[OF True])
  from run_steps_snapshots[OF run e refl refl] w
  have "(\<forall>x\<in>set (go_calls ext config w0). environ (fst x) = ?E)
        \<and> environ (go_world ext config w0) = ?E"
    by simp
  with True show ?thesis by (simp add: environ_ok_iff)
qed

theorem environ_set_before_steps_witness:
  "CHR 0x00 \<notin> set (project_name (main sample_config))
   \<and> CHR 0x00 \<notin> set (experiment_name (main sample_config))
   \<and> CHR 0x00 \<in> set (project_name (main nul_config))
   \<and> go_calls runner_ok sample_config sample_world \<noteq> []
   \<and> environ (fst (hd (go_calls runner_ok sample_config sample_world))) ''WANDB_PROJECT''
       = Some ''nyc_airbnb''
   \<and> environ (fst (last (go_calls runner_ok sample_config sample_world))) ''WANDB_RUN_GROUP''
       = Some ''development''
   \<and> environ (go_world runner_ok sample_config sample_world)
       = [''WANDB_PROJECT'' \<mapsto> ''nyc_airbnb'', ''WANDB_RUN_GROUP'' \<mapsto> ''development'']
   \<and> go_calls runner_ok nul_config sample_world = []"
proof -
  have n: "CHR 0x00 \<notin> set (project_name (main sample_config))"
    "CHR 0x00 \<notin> set (experiment_name (main sample_config))"
    "CHR 0x00 \<in> set (project_name (main nul_config))"
    by (simp_all add: sample_config_def nul_config_def)
  have ne: "go_calls runner_ok sample_config sample_world \<noteq> []"
    by (simp add: sample_defs)
  then have m: "hd (go_calls runner_ok sample_config sample_world)
                \<in> set (go_calls runner_ok sample_config sample_world)"
    "last (go_calls runner_ok sample_config sample_world)
                \<in> set (go_calls runner_ok sample_config sample_world)"
    by simp_all
  have v: "project_name (main sample_config) = ''nyc_airbnb''"
    "experiment_name (main sample_config) = ''development''"
    "environ sample_world = Map.empty"
    by (simp_all add: sample_config_def sample_world_def)
  note t1 = environ_set_before_steps[of sample_config runner_ok sample_world]
  note t2 = environ_set_before_steps[of nul_config runner_ok sample_world]
  from t1 n have "environ (go_world runner_ok sample_config sample_world)
       = [''WANDB_PROJECT'' \<mapsto> ''nyc_airbnb'', ''WANDB_RUN_GROUP'' \<mapsto> ''development'']"
    unfolding v by blast
  moreover from t1 m have
    "environ (fst (hd (go_calls runner_ok sample_config sample_world))) ''WANDB_PROJECT''
       = Some ''nyc_airbnb''"
    "environ (fst (last (go_calls runner_ok sample_config sample_world))) ''WANDB_RUN_GROUP''
       = Some ''development''"
    unfolding v by blast+
  moreover from t2 n have "go_calls runner_ok nul_config sample_world = []" by blast
  ultimately show ?thesis using n ne by blast
qed

text \<open>
  C8. On every exit path the temporary directory of the run does not exist afterwards. A
  run that reaches the \<open>with\<close> statement (every run in which lines 16 and 17 raise nothing)
  creates the directory, makes every call while it exists, and leaves it removed, whether
  the body returns or a step raises; outside that directory the files and directories, and
  the environment, the log and the working directory, are what the body of the \<open>with\<close>
  statement left. A run that lines 16 and 17 end with \<open>ValueError\<close> creates no directory
  and leaves files and directories untouched.
\<close>

theorem tmp_dir_removed:
  "(environ_ok config w0 \<longrightarrow>
       tmp_dir ext config w0 \<notin> dirs (go_world ext config w0)
     \<and> (\<forall>x\<in>set (go_calls ext config w0). tmp_dir ext config w0 \<in> dirs (fst x))
     \<and> (\<forall>p. \<not> under (tmp_dir ext config w0) p \<longrightarrow>
            (p \<in> dirs (go_world ext config w0) \<longleftrightarrow> p \<in> dirs w0)
          \<and> files (go_world ext config w0) p = files (body_world ext config w0) p)
     \<and> environ (go_world ext config w0) = environ (body_world ext config w0)
     \<and> logger (go_world ext config w0) = logger (body_world ext config w0)
     \<and> cwd (go_world ext config w0) = cwd (body_world ext config w0))
   \<and> (\<not> environ_ok config w0 \<longrightarrow>
       go_calls ext config w0 = []
     \<and> dirs (go_world ext config w0) = dirs w0
     \<and> files (go_world ext config w0) = files w0
     \<and> logger (go_world ext config w0) = logger w0
     \<and> cwd (go_world ext config w0) = cwd w0)"
proof (cases "environ_ok config w0")
  case False
  with go_not_ok[OF False, of ext] show ?thesis by simp
next
  case True
  obtain w4 where run: "run_steps ext config (original_cwd ext) (resolve_steps config) step_order
       (snd (enter_tmp ext (environ_world config w0)), [])
       = (go_raised ext config w0, (w4, go_calls ext config w0))"
    and w: "go_world ext config w0 = cleanup (tmp_dir ext config w0) w4"
    and b: "body_world ext config w0 = w4"
    by (rule go_run[OF True])
  from run_steps_snapshots[OF run refl refl refl]
  have d: "dirs w4 = insert (tmp_dir ext config w0) (dirs w0)"
    and c: "\<forall>x\<in>set (go_calls ext config w0). dirs (fst x) = insert (tmp_dir ext config w0) (dirs w0)"
    by (simp_all add: tmp_dir_def)
  have "under (tmp_dir ext config w0) (tmp_dir ext config w0)" by (simp add: under_def)
  with True w b d c show ?thesis by auto
qed

theorem tmp_dir_removed_witness:
  "environ_ok sample_config sample_world \<and> \<not> environ_ok nul_config sample_world
   \<and> go_raised runner_ok sample_config sample_world = None
   \<and> go_raised runner_fails sample_config sample_world \<noteq> None
   \<and> tmp_dir runner_ok sample_config sample_world = ''/tmp/tmpk3v9x''
   \<and> ''/tmp/tmpk3v9x'' \<notin> dirs (go_world runner_ok sample_config sample_world)
   \<and> ''/tmp/tmpk3v9x'' \<notin> dirs (go_world runner_fails sample_config sample_world)
   \<and> ''/tmp/tmpk3v9x'' \<in> dirs (fst (hd (go_calls runner_fails sample_config sample_world)))
   \<and> \<not> under ''/tmp/tmpk3v9x'' ''/work''
   \<and> ''/work'' \<notin> dirs (go_world runner_fails sample_config sample_world)
   \<and> dirs (go_world runner_fails nul_config sample_world) = {}"
proof -
  have o: "environ_ok sample_config sample_world" "\<not> environ_ok nul_config sample_world"
    by (simp_all add: environ_ok_iff sample_config_def nul_config_def)
  have t: "tmp_dir runner_ok sample_config sample_world = ''/tmp/tmpk3v9x''"
    "tmp_dir runner_fails sample_config sample_world = ''/tmp/tmpk3v9x''"
    by (simp_all add: tmp_dir_def enter_tmp_def runner_ok_def runner_fails_def Let_def)
  have r: "go_raised runner_ok sample_config sample_world = None"
    "go_raised runner_fails sample_config sample_world \<noteq> None"
    by (simp_all add: sample_defs)
  have n: "length (go_calls runner_fails sample_config sample_world) = 1"
    by (simp add: sample_defs)
  then have m: "hd (go_calls runner_fails sample_config sample_world)
                  \<in> set (go_calls runner_fails sample_config sample_world)"
    by (cases "go_calls runner_fails sample_config sample_world") simp_all
  have u: "\<not> under ''/tmp/tmpk3v9x'' ''/work''" by (simp add: under_def startswith_def)
  have d: "''/work'' \<notin> dirs sample_world" "dirs sample_world = {}" by (simp_all add: sample_world_def)
  note a = tmp_dir_removed[of sample_config sample_world runner_ok, unfolded t]
  note b = tmp_dir_removed[of sample_config sample_world runner_fails, unfolded t]
  note c = tmp_dir_removed[of nul_config sample_world runner_fails]
  from a o have "''/tmp/tmpk3v9x'' \<notin> dirs (go_world runner_ok sample_config sample_world)"
    by blast
  moreover from b o have "''/tmp/tmpk3v9x'' \<notin> dirs (go_world runner_fails sample_config sample_world)"
    by blast
  moreover from b o m have
    "''/tmp/tmpk3v9x'' \<in> dirs (fst (hd (go_calls runner_fails sample_config sample_world)))"
    by blast
  moreover from b o u d have "''/work'' \<notin> dirs (go_world runner_fails sample_config sample_world)"
    by blast
  moreover from c o d have "dirs (go_world runner_fails nul_config sample_world) = {}"
    by simp
  ultimately show ?thesis using o r t u by blast
qed



text \<open>
  C1 (as written, for the record of its failure). With the selection
  \<open>data_get,data_clean\<close> and a runner that raises, \<open>data_clean\<close> is in the selection and
  is not run.
\<close>

theorem selected_step_not_run_after_failure:
  "step_name DataClean \<in> set (resolve_steps sample_config)
   \<and> component_dir (original_cwd runner_fails) DataClean
        \<notin> (uri \<circ> snd) ` set (go_calls runner_fails sample_config sample_world)"
  by (simp add: sample_defs component_dir_def)

text \<open>
  C1, amended. The calls of a run are those of the steps of an initial segment of the
  selected steps taken in the fixed order \<open>data_get\<close>, \<open>data_clean\<close>, \<open>data_check\<close>,
  \<open>data_split\<close>, \<open>train_random_forest\<close>, \<open>test_model\<close>, whatever the order of the names
  in the selection: only steps whose names are in the selection are called, each once, and
  when the run raises nothing all of them are. (A step in the selection is left out only
  when the run has raised before its block.)
\<close>

theorem steps_run_in_fixed_order:
  "\<exists>k\<le>length (selected (resolve_steps config) step_order).
     map snd (go_calls ext config w0) =
       map (call_of config (original_cwd ext) w0)
         (take k (selected (resolve_steps config)
            [DataGet, DataClean, DataCheck, DataSplit, TrainRandomForest, TestModel]))
     \<and> (go_raised ext config w0 = None \<longrightarrow> k = length (selected (resolve_steps config) step_order))"
  using go_calls_order[of config ext w0] by (simp add: step_order_def)

theorem steps_run_in_fixed_order_witness:
  "go_raised runner_ok (with_steps sample_config (StepsList [''data_clean'', ''data_get''])) sample_world = None
   \<and> map (uri \<circ> snd)
        (go_calls runner_ok (with_steps sample_config (StepsList [''data_clean'', ''data_get''])) sample_world)
      = [''/repo/components/data_get'', ''/repo/components/data_clean'']"
proof -
  let ?c = "with_steps sample_config (StepsList [''data_clean'', ''data_get''])"
  have r: "go_raised runner_ok ?c sample_world = None"
    by (simp add: sample_defs)
  have s: "selected (resolve_steps ?c) step_order = [DataGet, DataClean]"
    by (simp add: selected_def step_order_def)
  from steps_run_in_fixed_order[of ?c runner_ok sample_world] r s
  have "map snd (go_calls runner_ok ?c sample_world)
          = map (call_of ?c (original_cwd runner_ok) sample_world) [DataGet, DataClean]"
    by (auto simp: step_order_def)
  then have "map (uri \<circ> snd) (go_calls runner_ok ?c sample_world)
          = map uri (map (call_of ?c (original_cwd runner_ok) sample_world) [DataGet, DataClean])"
    by (metis map_map)
  with r show ?thesis
    by (simp add: component_dir_def runner_ok_def path_join_def join_step_def startswith_def)
qed

text \<open>
  C2 (as written, for the record of its failure). When the call of \<open>data_get\<close> raises an
  exception whose text is \<open>boom\<close>, the one message logged is \<open>MLflow run failed: boom\<close>:
  it does not contain the name of the step.
\<close>

theorem log_message_lacks_step_name:
  "go_raised runner_fails sample_config sample_world = Some (PyExc ''ExecutionException'' ''boom'')
   \<and> map (uri \<circ> snd) (go_calls runner_fails sample_config sample_world)
        = [component_dir (original_cwd runner_fails) DataGet]
   \<and> logger (go_world runner_fails sample_config sample_world) = [''MLflow run failed: boom'']
   \<and> \<not> contains ''MLflow run failed: boom'' (step_name DataGet)"
  by (simp add: sample_defs component_dir_def cleanup_def)

text \<open>
  C2, amended. When the call of a step raises, the same exception is raised to the caller
  of \<open>go\<close> and that call is the last one: no later step is called. When the exception is
  an \<open>Exception\<close> it is caught and one message is logged, \<open>MLflow run failed: \<close> followed
  by the text of the exception (the cause; the message does not name the step); an
  exception that is not an \<open>Exception\<close>, such as \<open>KeyboardInterrupt\<close>, passes without a
  record.
\<close>

theorem failure_logged_and_reraised:
  assumes "x \<in> set (go_calls ext config w0)" and "mlflow_run ext (fst x) (snd x) = Some e"
  shows "go_raised ext config w0 = Some e
       \<and> x = last (go_calls ext config w0)
       \<and> logger (go_world ext config w0)
           = logger w0 @ (if is_Exception e then [''MLflow run failed: '' @ exc_str e] else [])
       \<and> (is_Exception e \<longrightarrow> contains (last (logger (go_world ext config w0))) (exc_str e))"
proof -
  note r = go_raised_last[OF assms]
  with go_logger[of ext config w0]
  have l: "logger (go_world ext config w0)
           = logger w0 @ (if is_Exception e then [''MLflow run failed: '' @ exc_str e] else [])"
    by simp
  with r contains_suffix[of "''MLflow run failed: ''" "exc_str e"] show ?thesis by simp
qed

theorem failure_logged_and_reraised_witness:
  "hd (go_calls runner_fails sample_config sample_world)
      \<in> set (go_calls runner_fails sample_config sample_world)
   \<and> go_raised runner_fails sample_config sample_world = Some (PyExc ''ExecutionException'' ''boom'')
   \<and> length (go_calls runner_fails sample_config sample_world) = 1
   \<and> logger (go_world runner_fails sample_config sample_world) = [''MLflow run failed: boom'']
   \<and> hd (go_calls runner_interrupted sample_config sample_world)
      \<in> set (go_calls runner_interrupted sample_config sample_world)
   \<and> go_raised runner_interrupted sample_config sample_world
       = Some (PyBaseExc ''KeyboardInterrupt'' [])
   \<and> logger (go_world runner_interrupted sample_config sample_world) = []"
proof -
  have n: "length (go_calls runner_fails sample_config sample_world) = 1"
    "length (go_calls runner_interrupted sample_config sample_world) = 1"
    by (simp_all add: sample_defs)
  then have m: "hd (go_calls runner_fails sample_config sample_world)
      \<in> set (go_calls runner_fails sample_config sample_world)"
    and m': "hd (go_calls runner_interrupted sample_config sample_world)
      \<in> set (go_calls runner_interrupted sample_config sample_world)"
    by (cases "go_calls runner_fails sample_config sample_world";
        cases "go_calls runner_interrupted sample_config sample_world"; simp)+
  have f: "mlflow_run runner_fails (fst (hd (go_calls runner_fails sample_config sample_world)))
             (snd (hd (go_calls runner_fails sample_config sample_world)))
           = Some (PyExc ''ExecutionException'' ''boom'')"
    and f': "mlflow_run runner_interrupted
             (fst (hd (go_calls runner_interrupted sample_config sample_world)))
             (snd (hd (go_calls runner_interrupted sample_config sample_world)))
           = Some (PyBaseExc ''KeyboardInterrupt'' [])"
    by (simp_all add: runner_fails_def runner_interrupted_def runner_ok_def)
  have l: "logger sample_world = []" by (simp add: sample_world_def)
  from failure_logged_and_reraised[OF m f] failure_logged_and_reraised[OF m' f'] n m m' l
  show ?thesis by simp
qed

text \<open>
  C3 (as written, for the record of its failure). With the selection \<open>["data_check"]\<close>,
  \<open>etl.min_price = 10\<close>, \<open>etl.max_price = 500\<close> and \<open>data_check.kl_threshold = 0.2\<close>, but a
  project name that holds a NUL byte, \<open>go\<close> raises \<open>ValueError\<close> at line 16 and makes no
  call at all.
\<close>

theorem data_check_not_called_for_nul_name:
  "resolve_steps (with_steps nul_config (StepsList [''data_check''])) = [''data_check'']
   \<and> min_price (etl (with_steps nul_config (StepsList [''data_check'']))) = SInt 10
   \<and> max_price (etl (with_steps nul_config (StepsList [''data_check'']))) = SInt 500
   \<and> kl_threshold (data_check (with_steps nul_config (StepsList [''data_check'']))) = SFloat 0.2
   \<and> go_calls runner_ok (with_steps nul_config (StepsList [''data_check''])) sample_world = []
   \<and> go_raised runner_ok (with_steps nul_config (StepsList [''data_check''])) sample_world
       = Some (PyExc ''ValueError'' ''embedded null byte'')"
  by (simp add: sample_defs)

text \<open>
  C3, amended. When the resolved selection is exactly \<open>["data_check"]\<close>, the configuration
  has \<open>etl.min_price = 10\<close>, \<open>etl.max_price = 500\<close> and \<open>data_check.kl_threshold = 0.2\<close>,
  and its project and experiment names hold no NUL byte, the run makes exactly one call: to
  the \<open>data_check\<close> component directory, entry point \<open>main\<close>, with the parameters \<open>csv\<close>,
  \<open>ref\<close>, \<open>kl_threshold = 0.2\<close>, \<open>min_price = 10\<close>, \<open>max_price = 500\<close>.
\<close>

theorem data_check_alone:
  assumes "resolve_steps config = [''data_check'']"
    and "min_price (etl config) = SInt 10" and "max_price (etl config) = SInt 500"
    and "kl_threshold (data_check config) = SFloat 0.2"
    and "CHR 0x00 \<notin> set (project_name (main config))"
    and "CHR 0x00 \<notin> set (experiment_name (main config))"
  shows "map snd (go_calls ext config w0) =
           [\<lparr>uri = path_join (original_cwd ext) [''components'', ''data_check''],
             entry_point = ''main'',
             parameters =
               [(''csv'', SStr ''nyc_airbnb/clean_data.csv:latest''),
                (''ref'', SStr ''nyc_airbnb/clean_data.csv:reference''),
                (''kl_threshold'', SFloat 0.2),
                (''min_price'', SInt 10),
                (''max_price'', SInt 500)]\<rparr>]"
proof -
  have ok: "environ_ok config w0" using assms(5,6) by (simp add: environ_ok_iff)
  have s: "selected (resolve_steps config) step_order = [DataCheck]"
    using assms(1) by (simp add: selected_def step_order_def)
  from go_calls_order[of config ext w0] obtain k where
    k: "k \<le> 1" "map snd (go_calls ext config w0)
          = map (call_of config (original_cwd ext) w0) (take k [DataCheck])"
       "go_raised ext config w0 = None \<longrightarrow> k = 1"
    unfolding s by auto
  obtain w4 where run: "run_steps ext config (original_cwd ext) (resolve_steps config) step_order
       (snd (enter_tmp ext (environ_world config w0)), [])
       = (go_raised ext config w0, (w4, go_calls ext config w0))"
    by (rule go_run[OF ok])
  have "go_calls ext config w0 \<noteq> []"
    using run assms(1)
    by (auto simp: step_order_def step_block_def try_step_def delegate_def
             split: option.splits)
  with k have "k = 1" by (cases k) auto
  with k(2) assms(2-4) show ?thesis
    by (simp add: call_of_def step_invocation_def)
qed

theorem data_check_alone_witness:
  "resolve_steps (with_steps sample_config (StepsStr ''data_check'')) = [''data_check'']
   \<and> CHR 0x00 \<notin> set (project_name (main (with_steps sample_config (StepsStr ''data_check''))))
   \<and> map (uri \<circ> snd)
        (go_calls runner_ok (with_steps sample_config (StepsStr ''data_check'')) sample_world)
      = [''/repo/components/data_check'']
   \<and> map (parameters \<circ> snd)
        (go_calls runner_ok (with_steps sample_config (StepsStr ''data_check'')) sample_world)
      = [[(''csv'', SStr ''nyc_airbnb/clean_data.csv:latest''),
          (''ref'', SStr ''nyc_airbnb/clean_data.csv:reference''),
          (''kl_threshold'', SFloat 0.2), (''min_price'', SInt 10), (''max_price'', SInt 500)]]"
proof -
  let ?c = "with_steps sample_config (StepsStr ''data_check'')"
  have a: "resolve_steps ?c = [''data_check'']" by simp
  have b: "min_price (etl ?c) = SInt 10" "max_price (etl ?c) = SInt 500"
    "kl_threshold (data_check ?c) = SFloat 0.2"
    "CHR 0x00 \<notin> set (project_name (main ?c))" "CHR 0x00 \<notin> set (experiment_name (main ?c))"
    by (simp_all add: with_steps_def sample_config_def)
  have u: "map (uri \<circ> snd) (go_calls runner_ok ?c sample_world)
          = map uri (map snd (go_calls runner_ok ?c sample_world))"
    and p: "map (parameters \<circ> snd) (go_calls runner_ok ?c sample_world)
          = map parameters (map snd (go_calls runner_ok ?c sample_world))"
    by simp_all
  show ?thesis
    unfolding u p data_check_alone[OF a b, of runner_ok sample_world]
    using b(4) by (simp add: runner_ok_def path_join_def join_step_def startswith_def)
qed

text \<open>
  C4. \<open>go\<close> with \<open>execute_steps\<close> given as a comma-separated string does exactly what it
  does with \<open>execute_steps\<close> given as the list of the fragments of that string: the same
  calls in the same order with the same parameters, the same result, the same final world.
  So for every list of step names (a name of a step holds no comma: so the six names, and
  so every name that can be written between the commas of a string), \<open>go\<close> with the names
  joined by commas does exactly what it does with the list itself.
\<close>

theorem joined_string_same_as_list:
  "go ext (with_steps config (StepsStr s)) w0
     = go ext (with_steps config (StepsList (split_str CHR '','' s))) w0
   \<and> ((\<forall>n\<in>set L. CHR '','' \<notin> set n) \<longrightarrow>
        go ext (with_steps config (StepsStr (str_join '','' L))) w0
          = go ext (with_steps config (StepsList L)) w0)
   \<and> (\<forall>st. CHR '','' \<notin> set (step_name st))"
proof -
  have 1: "go ext (with_steps config (StepsStr s)) w0
     = go ext (with_steps config (StepsList (split_str CHR '','' s))) w0"
    by (rule go_sel_cong) simp
  have 2: "go ext (with_steps config (StepsStr (str_join '','' L))) w0
          = go ext (with_steps config (StepsList L)) w0"
    if a: "\<forall>n\<in>set L. CHR '','' \<notin> set n"
  proof (rule go_sel_cong, rule allI)
    fix st
    show "step_name st \<in> set (resolve_steps (with_steps config (StepsStr (str_join '','' L))))
        \<longleftrightarrow> step_name st \<in> set (resolve_steps (with_steps config (StepsList L)))"
    proof (cases "L = []")
      case True
      then show ?thesis using step_name_nonempty[of st] by auto
    next
      case False
      with a show ?thesis by (simp add: split_join)
    qed
  qed
  from 1 2 step_name_no_comma show ?thesis by blast
qed

theorem joined_string_same_as_list_witness:
  "filter (\<lambda>n. CHR '','' \<in> set n) (map step_name [DataClean, DataGet, TestModel]) = []
   \<and> str_join '','' (map step_name [DataClean, DataGet, TestModel])
       = ''data_clean,data_get,test_model''
   \<and> go runner_ok (with_steps sample_config (StepsStr ''data_clean,data_get,test_model'')) sample_world
     = go runner_ok (with_steps sample_config
          (StepsList [''data_clean'', ''data_get'', ''test_model''])) sample_world
   \<and> map (uri \<circ> snd) (go_calls runner_ok (with_steps sample_config
          (StepsList [''data_clean'', ''data_get'', ''test_model''])) sample_world)
       = [''/repo/components/data_get'', ''/repo/components/data_clean'',
          ''/repo/components/test_model'']"
proof -
  let ?L = "map step_name [DataClean, DataGet, TestModel]"
  have a: "\<forall>n\<in>set ?L. CHR '','' \<notin> set n" by simp
  have j: "str_join '','' ?L = ''data_clean,data_get,test_model''" by simp
  have l: "?L = [''data_clean'', ''data_get'', ''test_model'']" by simp
  have n: "map (uri \<circ> snd) (go_calls runner_ok (with_steps sample_config
          (StepsList [''data_clean'', ''data_get'', ''test_model''])) sample_world)
       = [''/repo/components/data_get'', ''/repo/components/data_clean'',
          ''/repo/components/test_model'']"
    by (simp add: sample_defs)
  note t = joined_string_same_as_list[of runner_ok sample_config _ sample_world ?L,
      THEN conjunct2, THEN conjunct1, THEN mp, OF a]
  then have "go runner_ok (with_steps sample_config (StepsStr ''data_clean,data_get,test_model'')) sample_world
     = go runner_ok (with_steps sample_config
          (StepsList [''data_clean'', ''data_get'', ''test_model''])) sample_world"
    by simp
  moreover have "filter (\<lambda>n. CHR '','' \<in> set n) (map step_name [DataClean, DataGet, TestModel]) = []"
    by simp
  ultimately show ?thesis using j n by blast
qed

text \<open>
  C6. The call of \<open>train_random_forest\<close> is made in a world where the file at
  \<open>os.path.abspath("rf_config.json")\<close> holds the text that \<open>OmegaConf.to_yaml\<close> gives for
  the whole \<open>pipeline\<close> section: the file is written before the call. The parameter
  \<open>rf_config\<close> of the call is that path, an absolute one when the working directory is,
  and the parameter \<open>output_artifact\<close> is \<open>config.pipeline.export_artifact\<close>. When the
  selection contains \<open>train_random_forest\<close> and the run raises nothing, that call is made.
\<close>

theorem training_config_serialized:
  "(\<forall>x\<in>set (go_calls ext config w0).
      uri (snd x) = component_dir (original_cwd ext) TrainRandomForest \<longrightarrow>
        (\<exists>y. to_yaml ext (pipeline config) = Inr y
            \<and> files (fst x) (rf_config_path w0) = Some y)
      \<and> map_of (parameters (snd x)) ''rf_config'' = Some (SStr (rf_config_path w0))
      \<and> map_of (parameters (snd x)) ''output_artifact''
          = Some (SStr (export_artifact (pipeline config))))
   \<and> (step_name TrainRandomForest \<in> set (resolve_steps config) \<and> go_raised ext config w0 = None
        \<longrightarrow> (\<exists>x\<in>set (go_calls ext config w0).
               uri (snd x) = component_dir (original_cwd ext) TrainRandomForest))
   \<and> rf_config_path w0 = abspath (cwd w0) ''rf_config.json''
   \<and> (startswith (cwd w0) ''/'' \<longrightarrow> startswith (rf_config_path w0) ''/'')"
proof -
  have 1: "(\<exists>y. to_yaml ext (pipeline config) = Inr y
            \<and> files (fst x) (rf_config_path w0) = Some y)
      \<and> map_of (parameters (snd x)) ''rf_config'' = Some (SStr (rf_config_path w0))
      \<and> map_of (parameters (snd x)) ''output_artifact''
          = Some (SStr (export_artifact (pipeline config)))"
    if "x \<in> set (go_calls ext config w0)"
      and "uri (snd x) = component_dir (original_cwd ext) TrainRandomForest" for x
  proof -
    from go_train[OF that] obtain y where "to_yaml ext (pipeline config) = Inr y"
      and "files (fst x) = (files w0)(rf_config_path w0 \<mapsto> y)"
      and "snd x = step_invocation config (original_cwd ext) (rf_config_path w0) TrainRandomForest"
      by blast
    then show ?thesis by (simp add: step_invocation_def)
  qed
  have 2: "\<exists>x\<in>set (go_calls ext config w0).
               uri (snd x) = component_dir (original_cwd ext) TrainRandomForest"
    if t: "step_name TrainRandomForest \<in> set (resolve_steps config)"
      and r: "go_raised ext config w0 = None"
  proof -
    from go_calls_order[of config ext w0] r
    have "map snd (go_calls ext config w0) =
       map (call_of config (original_cwd ext) w0) (selected (resolve_steps config) step_order)"
      by auto
    moreover from t have "TrainRandomForest \<in> set (selected (resolve_steps config) step_order)"
      by (simp add: selected_def step_order_def)
    ultimately have "call_of config (original_cwd ext) w0 TrainRandomForest
        \<in> set (map snd (go_calls ext config w0))"
      by simp
    then obtain x where "x \<in> set (go_calls ext config w0)"
      "snd x = call_of config (original_cwd ext) w0 TrainRandomForest"
      by auto
    then show ?thesis by (intro bexI[of _ x]) simp_all
  qed
  have 3: "rf_config_path w0 = abspath (cwd w0) ''rf_config.json''"
    by (simp add: rf_config_path_def)
  have 4: "startswith (cwd w0) ''/'' \<longrightarrow> startswith (rf_config_path w0) ''/''"
    using startswith_abspath[of "cwd w0"] by (simp add: rf_config_path_def)
  from 1 have c1: "\<forall>x\<in>set (go_calls ext config w0).
      uri (snd x) = component_dir (original_cwd ext) TrainRandomForest \<longrightarrow>
        (\<exists>y. to_yaml ext (pipeline config) = Inr y
            \<and> files (fst x) (rf_config_path w0) = Some y)
      \<and> map_of (parameters (snd x)) ''rf_config'' = Some (SStr (rf_config_path w0))
      \<and> map_of (parameters (snd x)) ''output_artifact''
          = Some (SStr (export_artifact (pipeline config)))"
    by blast
  from 2 have c2: "step_name TrainRandomForest \<in> set (resolve_steps config)
       \<and> go_raised ext config w0 = None
        \<longrightarrow> (\<exists>x\<in>set (go_calls ext config w0).
               uri (snd x) = component_dir (original_cwd ext) TrainRandomForest)"
    by blast
  show ?thesis by (intro conjI; (rule c1 c2 3 4))
qed

theorem training_config_serialized_witness:
  "step_name TrainRandomForest
     \<in> set (resolve_steps (with_steps sample_config (StepsStr ''train_random_forest'')))
   \<and> go_raised runner_ok (with_steps sample_config (StepsStr ''train_random_forest'')) sample_world = None
   \<and> (\<exists>x\<in>set (go_calls runner_ok (with_steps sample_config (StepsStr ''train_random_forest''))
                  sample_world).
         uri (snd x) = ''/repo/components/train_random_forest''
       \<and> files (fst x) ''/work/rf_config.json'' = Some ''export_artifact: random_forest_export''
       \<and> map_of (parameters (snd x)) ''rf_config'' = Some (SStr ''/work/rf_config.json''))"
proof -
  let ?c = "with_steps sample_config (StepsStr ''train_random_forest'')"
  have t: "step_name TrainRandomForest \<in> set (resolve_steps ?c)" by simp
  have r: "go_raised runner_ok ?c sample_world = None" by (simp add: sample_defs)
  have p: "rf_config_path sample_world = ''/work/rf_config.json''"
    by (simp add: rf_config_path_def abspath_def normpath_def sample_world_def path_join_def
          join_step_def startswith_def)
  have d: "component_dir (original_cwd runner_ok) TrainRandomForest
             = ''/repo/components/train_random_forest''"
    by (simp add: component_dir_def sample_defs)
  have y: "to_yaml runner_ok (pipeline ?c) = Inr ''export_artifact: random_forest_export''"
    by (simp add: runner_ok_def with_steps_def sample_config_def)
  note T = training_config_serialized[of runner_ok ?c sample_world, unfolded p d y]
  from T t r obtain x where x: "x \<in> set (go_calls runner_ok ?c sample_world)"
    "uri (snd x) = ''/repo/components/train_random_forest''"
    by blast
  from T have "\<forall>x\<in>set (go_calls runner_ok ?c sample_world).
      uri (snd x) = ''/repo/components/train_random_forest'' \<longrightarrow>
        (\<exists>y. Inr ''export_artifact: random_forest_export'' = (Inr y :: exn + string)
            \<and> files (fst x) ''/work/rf_config.json'' = Some y)
      \<and> map_of (parameters (snd x)) ''rf_config'' = Some (SStr ''/work/rf_config.json'')
      \<and> map_of (parameters (snd x)) ''output_artifact''
          = Some (SStr (export_artifact (pipeline ?c)))"
    by (rule conjunct1)
  with x have "files (fst x) ''/work/rf_config.json'' = Some ''export_artifact: random_forest_export''
      \<and> map_of (parameters (snd x)) ''rf_config'' = Some (SStr ''/work/rf_config.json'')"
    by auto
  with x t r show ?thesis by blast
qed




text \<open>
  C10. Splitting \<open>execute_steps\<close> at its commas neither trims white space nor drops empty
  fragments: there is one fragment more than there are commas, and joining the fragments
  with commas gives the string back. The name of a step with anything around it, white
  space or other, is the name of no step, and a step whose exact name is not among the
  fragments is not called; nothing is logged and nothing raised for it (a run that raises
  nothing logs nothing). The empty string resolves to the one empty fragment, a selection
  that runs no step.
\<close>

theorem split_keeps_whitespace_and_empty_fragments:
  assumes "execute_steps (main config) = StepsStr s"
  shows "str_join '','' (resolve_steps config) = s
       \<and> length (resolve_steps config) = Suc (count_list s CHR '','')
       \<and> (\<forall>pre post st st'. pre \<noteq> [] \<or> post \<noteq> [] \<longrightarrow> pre @ step_name st @ post \<noteq> step_name st')
       \<and> (\<forall>st. step_name st \<notin> set (resolve_steps config) \<longrightarrow>
            (\<forall>x\<in>set (go_calls ext config w0). uri (snd x) \<noteq> component_dir (original_cwd ext) st))
       \<and> (go_raised ext config w0 = None \<longrightarrow> logger (go_world ext config w0) = logger w0)
       \<and> (s = [] \<longrightarrow> resolve_steps config = [[]] \<and> go_calls ext config w0 = []
              \<and> logger (go_world ext config w0) = logger w0
              \<and> (environ_ok config w0 \<longrightarrow> go_raised ext config w0 = None))"
proof -
  have r: "resolve_steps config = split_str CHR '','' s"
    using assms by (simp add: resolve_steps_def)
  have 1: "str_join '','' (resolve_steps config) = s"
    unfolding r by (rule join_split)
  have 2: "length (resolve_steps config) = Suc (count_list s CHR '','')"
    unfolding r by (rule length_split_str)
  have 3: "\<forall>pre post st st'. pre \<noteq> [] \<or> post \<noteq> [] \<longrightarrow> pre @ step_name st @ post \<noteq> step_name st'"
    using padded_step_name by blast
  have 4: "\<forall>st. step_name st \<notin> set (resolve_steps config) \<longrightarrow>
            (\<forall>x\<in>set (go_calls ext config w0). uri (snd x) \<noteq> component_dir (original_cwd ext) st)"
    using go_calls_absent[of _ config ext w0] by blast
  have 5: "go_raised ext config w0 = None \<longrightarrow> logger (go_world ext config w0) = logger w0"
    using go_logger[of ext config w0] by simp
  have 6: "s = [] \<longrightarrow> resolve_steps config = [[]] \<and> go_calls ext config w0 = []
              \<and> logger (go_world ext config w0) = logger w0
              \<and> (environ_ok config w0 \<longrightarrow> go_raised ext config w0 = None)"
  proof
    assume e: "s = []"
    with r have f: "resolve_steps config = [[]]" by simp
    then have "selected (resolve_steps config) step_order = []"
      by (simp add: selected_def step_order_def)
    with go_calls_order[of config ext w0] have c: "go_calls ext config w0 = []" by simp
    have g: "go_raised ext config w0 = None" if ok: "environ_ok config w0"
    proof -
      obtain w4 where "run_steps ext config (original_cwd ext) (resolve_steps config) step_order
         (snd (enter_tmp ext (environ_world config w0)), [])
         = (go_raised ext config w0, (w4, go_calls ext config w0))"
        by (rule go_run[OF ok])
      with f show ?thesis by (simp add: step_order_def step_block_def)
    qed
    have l: "logger (go_world ext config w0) = logger w0"
    proof (cases "environ_ok config w0")
      case True
      with g 5 show ?thesis by simp
    next
      case False
      with go_logger[of ext config w0] show ?thesis by (simp split: option.splits)
    qed
    from f c l g show "resolve_steps config = [[]] \<and> go_calls ext config w0 = []
              \<and> logger (go_world ext config w0) = logger w0
              \<and> (environ_ok config w0 \<longrightarrow> go_raised ext config w0 = None)"
      by simp
  qed
  show ?thesis by (intro conjI; (rule 1 2 3 4 5 6))
qed

theorem split_keeps_whitespace_and_empty_fragments_witness:
  "execute_steps (main (with_steps sample_config (StepsStr ''data_get, data_clean'')))
     = StepsStr ''data_get, data_clean''
   \<and> resolve_steps (with_steps sample_config (StepsStr ''data_get, data_clean''))
       = [''data_get'', '' data_clean'']
   \<and> '' data_clean'' \<notin> range step_name
   \<and> ''/repo/components/data_clean''
        \<notin> (uri \<circ> snd) ` set (go_calls runner_ok
              (with_steps sample_config (StepsStr ''data_get, data_clean'')) sample_world)
   \<and> map (uri \<circ> snd)
       (go_calls runner_ok (with_steps sample_config (StepsStr ''data_get, data_clean'')) sample_world)
       = [''/repo/components/data_get'']
   \<and> go_raised runner_ok (with_steps sample_config (StepsStr ''data_get, data_clean''))
        sample_world = None
   \<and> logger (go_world runner_ok (with_steps sample_config (StepsStr ''data_get, data_clean''))
        sample_world) = []
   \<and> go_calls runner_ok (with_steps sample_config (StepsStr [])) sample_world = []"
proof -
  let ?c = "with_steps sample_config (StepsStr ''data_get, data_clean'')"
  let ?e = "with_steps sample_config (StepsStr [])"
  have a: "execute_steps (main ?c) = StepsStr ''data_get, data_clean''"
    and a': "execute_steps (main ?e) = StepsStr []"
    by (simp_all add: with_steps_def)
  have f: "resolve_steps ?c = [''data_get'', '' data_clean'']" by simp
  have m: "step_name DataClean \<notin> set (resolve_steps ?c)" by simp
  have r: "go_raised runner_ok ?c sample_world = None" by (simp add: sample_defs)
  have u: "map (uri \<circ> snd) (go_calls runner_ok ?c sample_world) = [''/repo/components/data_get'']"
    by (simp add: sample_defs)
  have d: "component_dir (original_cwd runner_ok) DataClean = ''/repo/components/data_clean''"
    by (simp add: component_dir_def sample_defs)
  have l: "logger sample_world = []" by (simp add: sample_world_def)
  note t = split_keeps_whitespace_and_empty_fragments[OF a, of runner_ok sample_world]
  note t' = split_keeps_whitespace_and_empty_fragments[OF a', of runner_ok sample_world]
  note t3 = t[THEN conjunct2, THEN conjunct2, THEN conjunct1]
  note t4 = t[THEN conjunct2, THEN conjunct2, THEN conjunct2, THEN conjunct1]
  note t5 = t[THEN conjunct2, THEN conjunct2, THEN conjunct2, THEN conjunct2, THEN conjunct1]
  note t6 = t'[THEN conjunct2, THEN conjunct2, THEN conjunct2, THEN conjunct2, THEN conjunct2]
  have "'' '' @ step_name DataClean @ [] \<noteq> step_name st" for st
    by (rule t3[rule_format]) simp
  then have "\<forall>st. '' data_clean'' \<noteq> step_name st" by simp
  then have n: "'' data_clean'' \<notin> range step_name" by blast
  have i: "v \<notin> (uri \<circ> snd) ` A" if "\<forall>x\<in>A. uri (snd x) \<noteq> v"
    for v and A :: "(world \<times> invocation) set"
    using that by auto
  have "\<forall>x\<in>set (go_calls runner_ok ?c sample_world).
         uri (snd x) \<noteq> ''/repo/components/data_clean''"
    by (intro ballI) (rule t4[rule_format, OF m, unfolded d])
  then have c: "''/repo/components/data_clean''
        \<notin> (uri \<circ> snd) ` set (go_calls runner_ok ?c sample_world)"
    by (rule i)
  have g: "logger (go_world runner_ok ?c sample_world) = []"
    by (rule t5[rule_format, OF r, unfolded l])
  have e: "go_calls runner_ok ?e sample_world = []"
    using t6[rule_format] by simp
  show ?thesis by (intro conjI; (rule a f n c u r g e))
qed

end
